theory Spec2Isabelle
  imports Complex_Main "HOL-Library.AList" "HOL-Library.Multiset" "HOL-Library.Sublist"
begin

section \<open>The batch conversion scheduler of gui/core/batch_processor.py\<close>

text \<open>
  The scheduler is embedded as explicit state passing. Every public method and every
  callback body of \<open>BatchProcessor\<close> is one function from the processor's state to the
  new state. A \<open>BatchTask\<close> is a Python object shared by the queue, the task table and the
  caller, so tasks live in a store (\<open>objs\<close>, addressed by index) and the queue and the task
  table hold addresses. What the code reads from outside (the clock, the file system, the
  hash function, the regular expression engine) is a parameter.
\<close>

subsection \<open>Enumerations\<close>

datatype TaskPriority = LOW | NORMAL | HIGH | URGENT

fun priority_value :: "TaskPriority \<Rightarrow> int" where
  "priority_value LOW = 0"
| "priority_value NORMAL = 1"
| "priority_value HIGH = 2"
| "priority_value URGENT = 3"

datatype TaskStatus = PENDING | QUEUED | PROCESSING | COMPLETED | FAILED | CANCELLED | RETRYING

text \<open>The conversion events of gui/core/events.py (\<open>EventType\<close>), and the rest of the enum.\<close>

datatype EventType =
    CONVERSION_STARTED | CONVERSION_PROGRESS | CONVERSION_COMPLETED
  | CONVERSION_FAILED | CONVERSION_CANCELLED
  | FILE_SELECTED | FILE_LOADED | FILE_SAVED | FILE_ERROR
  | STATE_CHANGED | SETTINGS_CHANGED
  | UI_READY | UI_ERROR | UI_WARNING | UI_INFO
  | APP_STARTED | APP_SHUTDOWN | APP_ERROR

text \<open>
  An \<open>Event\<close> carries its type, its data dictionary (in insertion order) and its source.
  The timestamp field is left out: nothing in the scheduler reads it.
\<close>

record Event =
  event_type :: EventType
  data :: "(string \<times> string) list"
  source :: "string option"

subsection \<open>Paths\<close>

text \<open>
  A \<open>pathlib.Path\<close> is the list of its parts (\<open>Path.parts\<close>); the first part of an
  absolute POSIX path is \<open>/\<close>.
\<close>

type_synonym path = "string list"

definition path_name :: "path \<Rightarrow> string" where
  "path_name p = (if p = [] \<or> p = [''/''] then [] else last p)"

fun rfind :: "char \<Rightarrow> string \<Rightarrow> nat option" where
  "rfind c [] = None"
| "rfind c (x # xs) =
     (case rfind c xs of
        Some i \<Rightarrow> Some (Suc i)
      | None \<Rightarrow> (if x = c then Some 0 else None))"

text \<open>\<open>PurePath.suffix\<close>: the last dot of the name and what follows, unless the dot is the
  first or the last character of the name.\<close>

definition name_suffix :: "string \<Rightarrow> string" where
  "name_suffix nm =
     (case rfind (CHR ''.'') nm of
        None \<Rightarrow> []
      | Some i \<Rightarrow> (if 0 < i \<and> Suc i < length nm then drop i nm else []))"

definition path_suffix :: "path \<Rightarrow> string" where
  "path_suffix p = name_suffix (path_name p)"

datatype py_error = NameError string | ValueError string | TypeError string | KeyError string

text \<open>\<open>file_path.with_suffix('.md').name\<close>: raises ValueError on an empty name; otherwise
  the name with its suffix (if any) replaced by \<open>.md\<close>.\<close>

definition with_suffix_md_name :: "path \<Rightarrow> py_error + string" where
  "with_suffix_md_name p =
     (let nm = path_name p in
      if nm = [] then Inl (ValueError ''has an empty name'')
      else Inr (take (length nm - length (name_suffix nm)) nm @ ''.md''))"

text \<open>\<open>output_dir / name\<close> for a one-part relative name.\<close>

definition joinpath :: "path \<Rightarrow> string \<Rightarrow> path" where
  "joinpath d nm = d @ [nm]"

fun join_parts :: "string list \<Rightarrow> string" where
  "join_parts [] = []"
| "join_parts [x] = x"
| "join_parts (x # y # ys) = x @ ''/'' @ join_parts (y # ys)"

text \<open>\<open>str(path)\<close>.\<close>

definition str_path :: "path \<Rightarrow> string" where
  "str_path p =
     (case p of
        [] \<Rightarrow> ''.''
      | x # xs \<Rightarrow> (if x = ''/'' then ''/'' @ join_parts xs else join_parts (x # xs)))"

subsection \<open>The outside world\<close>

text \<open>
  What the code reads from the operating system and from library functions whose result
  the scheduler does not look into. \<open>None\<close> stands for a raised exception.
  \<open>time.time()\<close> and the readings of the local clock (\<open>datetime.now()\<close>, and
  \<open>datetime.fromtimestamp(st_mtime)\<close>, which \<open>mtime_datetime\<close> stands for) are whole
  microseconds. \<open>str_lower\<close> is \<open>str.lower\<close>, which works on all of Unicode.
\<close>

record world =
  path_exists :: "path \<Rightarrow> bool"
  read_bytes :: "path \<Rightarrow> string option"
  md5_hexdigest :: "string \<Rightarrow> string"
  st_size :: "path \<Rightarrow> int option"
  mtime_datetime :: "path \<Rightarrow> int option"
  resolve :: "path \<Rightarrow> path option"
  re_search :: "string \<Rightarrow> string \<Rightarrow> bool"
  str_lower :: "string \<Rightarrow> string"

text \<open>The two clock readings a \<open>BatchTask\<close> takes when it is constructed.\<close>

record clock =
  time_time :: int
  datetime_now :: int

subsection \<open>BatchTask\<close>

record BatchTask =
  task_id :: string
  input_file :: "path option"
  output_file :: "path option"
  priority :: TaskPriority
  status :: TaskStatus
  retry_count :: int
  max_retries :: int
  created_at :: int
  started_at :: "int option"
  completed_at :: "int option"
  error_message :: "string option"
  result_text :: "string option"
  file_hash :: "string option"

text \<open>\<open>str\<close> of an integer, in decimal.\<close>

definition digit_char :: "nat \<Rightarrow> char" where
  "digit_char n = ''0123456789'' ! (n mod 10)"

fun str_nat :: "nat \<Rightarrow> string" where
  "str_nat n = (if n < 10 then [digit_char n] else str_nat (n div 10) @ [digit_char (n mod 10)])"

definition str_int :: "int \<Rightarrow> string" where
  "str_int i = (if i < 0 then CHR ''-'' # str_nat (nat (- i)) else str_nat (nat i))"

text \<open>\<open>int(x)\<close> truncates towards zero; here \<open>x = t / 1000\<close> for a whole number \<open>t\<close>.\<close>

definition trunc_div :: "int \<Rightarrow> int \<Rightarrow> int" where
  "trunc_div a b = (if 0 \<le> a then a div b else - ((- a) div b))"

text \<open>The default factory of \<open>task_id\<close>: \<open>f"task_{int(time.time() * 1000)}"\<close>, the clock
  reading in whole milliseconds.\<close>

definition default_task_id :: "int \<Rightarrow> string" where
  "default_task_id t_us = ''task_'' @ str_int (trunc_div t_us 1000)"

text \<open>\<open>__post_init__\<close>: the MD5 of the first MiB, when the file exists and can be read.\<close>

definition post_init :: "world \<Rightarrow> BatchTask \<Rightarrow> BatchTask" where
  "post_init w t =
     (case input_file t of
        None \<Rightarrow> t
      | Some p \<Rightarrow>
          (if path_exists w p then
             (case read_bytes w p of
                None \<Rightarrow> t
              | Some bytes \<Rightarrow> t\<lparr>file_hash := Some (md5_hexdigest w (take (1024 * 1024) bytes))\<rparr>)
           else t))"

definition new_task ::
  "world \<Rightarrow> clock \<Rightarrow> path \<Rightarrow> path option \<Rightarrow> TaskPriority \<Rightarrow> int \<Rightarrow> BatchTask" where
  "new_task w clk inp outp prio mr =
     post_init w
       \<lparr>task_id = default_task_id (time_time clk), input_file = Some inp, output_file = outp,
        priority = prio, status = PENDING, retry_count = 0, max_retries = mr,
        created_at = datetime_now clk, started_at = None, completed_at = None,
        error_message = None, result_text = None, file_hash = None\<rparr>"

text \<open>\<open>BatchTask.__lt__\<close>.\<close>

definition task_lt :: "BatchTask \<Rightarrow> BatchTask \<Rightarrow> bool" where
  "task_lt a b =
     (if priority_value (priority a) \<noteq> priority_value (priority b)
      then priority_value (priority a) > priority_value (priority b)
      else created_at a < created_at b)"

subsection \<open>BatchStatistics\<close>

text \<open>The field \<open>retry_count\<close> of the statistics is \<open>stats_retry_count\<close> here, the task
  record having a field of that name.\<close>

record BatchStatistics =
  total_tasks :: int
  completed_tasks :: int
  failed_tasks :: int
  cancelled_tasks :: int
  stats_retry_count :: int
  total_files_size :: int
  processed_size :: int
  start_time :: "int option"
  end_time :: "int option"
  tasks_by_status :: "TaskStatus \<Rightarrow> int"

definition new_statistics :: BatchStatistics where
  "new_statistics =
     \<lparr>total_tasks = 0, completed_tasks = 0, failed_tasks = 0, cancelled_tasks = 0,
      stats_retry_count = 0, total_files_size = 0, processed_size = 0,
      start_time = None, end_time = None, tasks_by_status = (\<lambda>_. 0)\<rparr>"

text \<open>\<open>success_rate\<close>; Python's float division is exact division here.\<close>

definition success_rate :: "BatchStatistics \<Rightarrow> real" where
  "success_rate st =
     (if total_tasks st = 0 then 0
      else (real_of_int (completed_tasks st) / real_of_int (total_tasks st)) * 100)"

definition bump_status :: "TaskStatus \<Rightarrow> int \<Rightarrow> BatchStatistics \<Rightarrow> BatchStatistics" where
  "bump_status k d st = st\<lparr>tasks_by_status := (tasks_by_status st)(k := tasks_by_status st k + d)\<rparr>"

subsection \<open>FileFilter\<close>

text \<open>
  A \<open>datetime\<close> is naive or carries a time zone (it is aware). The number is the moment it
  stands for, as a reading of the local clock in microseconds. The modification time that
  \<open>matches\<close> computes, \<open>datetime.fromtimestamp(...)\<close>, is naive.
\<close>

datatype py_datetime = Naive int | Aware int

text \<open>A compiled regular expression is its pattern; \<open>re_search\<close> of the world runs it.\<close>

record FileFilter =
  extensions :: "string list option"
  min_size :: "int option"
  max_size :: "int option"
  min_date :: "py_datetime option"
  max_date :: "py_datetime option"
  name_pattern :: "string option"
  exclude_paths :: "path list"
  exclude_patterns :: "string list"

text \<open>\<open>FileFilter.__init__\<close>: an empty name pattern is not compiled, and a missing
  exclusion list is the empty list.\<close>

definition FileFilter_init ::
  "string list option \<Rightarrow> int option \<Rightarrow> int option \<Rightarrow> py_datetime option \<Rightarrow>
   py_datetime option \<Rightarrow> string option \<Rightarrow> path list option \<Rightarrow> string list option \<Rightarrow>
   FileFilter" where
  "FileFilter_init exts mins maxs mind maxd pat epaths epats =
     \<lparr>extensions = exts, min_size = mins, max_size = maxs, min_date = mind, max_date = maxd,
      name_pattern = (case pat of None \<Rightarrow> None | Some r \<Rightarrow> (if r = [] then None else Some r)),
      exclude_paths = (case epaths of None \<Rightarrow> [] | Some ps \<Rightarrow> ps),
      exclude_patterns = (case epats of None \<Rightarrow> [] | Some rs \<Rightarrow> rs)\<rparr>"

text \<open>\<open>if self.extensions: if suffix.lower() not in [e.lower() ...]: return False\<close>;
  the result is whether the check lets the path through.\<close>

definition extension_ok :: "world \<Rightarrow> FileFilter \<Rightarrow> path \<Rightarrow> bool" where
  "extension_ok w f p =
     (case extensions f of
        None \<Rightarrow> True
      | Some es \<Rightarrow>
          (if es = [] then True
           else str_lower w (path_suffix p) \<in> set (map (str_lower w) es)))"

text \<open>\<open>self.min_size and file_size < self.min_size\<close>: a bound of 0 is falsy, like None.\<close>

definition below_min_size :: "int option \<Rightarrow> int \<Rightarrow> bool" where
  "below_min_size b sz = (case b of None \<Rightarrow> False | Some m \<Rightarrow> m \<noteq> 0 \<and> sz < m)"

definition above_max_size :: "int option \<Rightarrow> int \<Rightarrow> bool" where
  "above_max_size b sz = (case b of None \<Rightarrow> False | Some m \<Rightarrow> m \<noteq> 0 \<and> sz > m)"

text \<open>\<open>self.min_date and mod_time < self.min_date\<close>: a datetime is always truthy, and
  the comparison of the naive \<open>mod_time\<close> with an aware datetime raises TypeError.\<close>

definition naive_vs_aware :: py_error where
  "naive_vs_aware = TypeError ''can't compare offset-naive and offset-aware datetimes''"

definition before_min_date :: "py_datetime option \<Rightarrow> int \<Rightarrow> py_error + bool" where
  "before_min_date b t =
     (case b of
        None \<Rightarrow> Inr False
      | Some (Naive d) \<Rightarrow> Inr (t < d)
      | Some (Aware d) \<Rightarrow> Inl naive_vs_aware)"

definition after_max_date :: "py_datetime option \<Rightarrow> int \<Rightarrow> py_error + bool" where
  "after_max_date b t =
     (case b of
        None \<Rightarrow> Inr False
      | Some (Naive d) \<Rightarrow> Inr (t > d)
      | Some (Aware d) \<Rightarrow> Inl naive_vs_aware)"

definition name_pattern_ok :: "world \<Rightarrow> FileFilter \<Rightarrow> path \<Rightarrow> bool" where
  "name_pattern_ok w f p =
     (case name_pattern f of None \<Rightarrow> True | Some r \<Rightarrow> re_search w r (path_name p))"

text \<open>\<open>Path.parents\<close>: the proper ancestors, the nearest first.\<close>

definition path_parents :: "path \<Rightarrow> path list" where
  "path_parents p =
     map (\<lambda>k. take k p) (rev [(if p \<noteq> [] \<and> hd p = ''/'' then 1 else 0) ..< length p])"

text \<open>The loop over \<open>exclude_paths\<close>; an exception of \<open>resolve\<close> skips the entry.\<close>

fun excluded_by_paths :: "world \<Rightarrow> path list \<Rightarrow> path \<Rightarrow> bool" where
  "excluded_by_paths w [] p = False"
| "excluded_by_paths w (e # es) p =
     (case resolve w e of
        None \<Rightarrow> excluded_by_paths w es p
      | Some re \<Rightarrow>
          (case resolve w p of
             None \<Rightarrow> excluded_by_paths w es p
           | Some rp \<Rightarrow>
               (if re \<in> set (path_parents rp) then True
                else if rp = re then True
                else excluded_by_paths w es p)))"

fun excluded_by_patterns :: "world \<Rightarrow> string list \<Rightarrow> string \<Rightarrow> bool" where
  "excluded_by_patterns w [] file_str = False"
| "excluded_by_patterns w (r # rs) file_str =
     (if re_search w r file_str then True else excluded_by_patterns w rs file_str)"

text \<open>The checks of \<open>matches\<close> that come after the two \<open>try\<close> blocks.\<close>

definition matches_name_and_exclusions :: "world \<Rightarrow> FileFilter \<Rightarrow> path \<Rightarrow> bool" where
  "matches_name_and_exclusions w f file_path =
     (if \<not> name_pattern_ok w f file_path then False
      else if excluded_by_paths w (exclude_paths f) file_path then False
      else if excluded_by_patterns w (exclude_patterns f) (str_path file_path) then False
      else True)"

text \<open>\<open>FileFilter.matches\<close>, one branch per \<open>return\<close> of the source; an exception in a
  \<open>try\<close> block (of \<open>stat\<close>, or the TypeError of a comparison) is a \<open>return False\<close>.\<close>

definition matches :: "world \<Rightarrow> FileFilter \<Rightarrow> path \<Rightarrow> bool" where
  "matches w f file_path =
     (if \<not> extension_ok w f file_path then False
      else
        (case st_size w file_path of
           None \<Rightarrow> False
         | Some file_size \<Rightarrow>
             (if below_min_size (min_size f) file_size then False
              else if above_max_size (max_size f) file_size then False
              else
                (case mtime_datetime w file_path of
                   None \<Rightarrow> False
                 | Some mod_time \<Rightarrow>
                     (case before_min_date (min_date f) mod_time of
                        Inl e \<Rightarrow> False
                      | Inr too_old \<Rightarrow>
                          (if too_old then False
                           else
                             (case after_max_date (max_date f) mod_time of
                                Inl e \<Rightarrow> False
                              | Inr too_new \<Rightarrow>
                                  (if too_new then False
                                   else matches_name_and_exclusions w f file_path))))))))"

text \<open>\<open>FileFilter.filter_files\<close>: \<open>[fp for fp in file_paths if self.matches(fp)]\<close>.\<close>

fun filter_files :: "world \<Rightarrow> FileFilter \<Rightarrow> path list \<Rightarrow> path list" where
  "filter_files w f [] = []"
| "filter_files w f (fp # fps) =
     (if matches w f fp then fp # filter_files w f fps else filter_files w f fps)"

subsection \<open>The conversion callback and futures\<close>

text \<open>
  What a conversion callback does when called: it returns a dictionary (with or without a
  \<open>text_content\<close> entry), an object with a \<open>text_content\<close> attribute or some other value
  (given by its \<open>str\<close>), or it raises an exception (given by its \<open>str\<close>).
\<close>

datatype conv_value = DictValue "string option" | ObjectValue string | OtherValue string

datatype conv_outcome = Returns conv_value | Raises string

type_synonym conversion_callback = "string \<Rightarrow> string option \<Rightarrow> conv_outcome"

text \<open>The result dictionary of the \<open>_process_task\<close> functions.\<close>

record task_result =
  r_success :: bool
  r_result_text :: "string option"
  r_error :: "string option"

text \<open>The state of a \<open>concurrent.futures.Future\<close>, and what \<open>future.result\<close> does when a
  completion handler calls it.\<close>

datatype future_state = FUT_PENDING | FUT_RUNNING | FUT_CANCELLED | FUT_FINISHED

datatype future_outcome =
    Returned task_result
  | RaisedTimeoutError
  | RaisedCancelledError
  | RaisedAsyncioCancelledError
  | RaisedException string

definition future_done :: "future_state \<Rightarrow> bool" where
  "future_done f = (f = FUT_CANCELLED \<or> f = FUT_FINISHED)"

text \<open>\<open>str(e)\<close> of the exception; a timeout and a cancellation carry no message.\<close>

fun exception_str :: "future_outcome \<Rightarrow> string" where
  "exception_str (RaisedException msg) = msg"
| "exception_str _ = []"

subsection \<open>BatchProcessor\<close>

text \<open>
  The dictionaries are association lists in insertion order. \<open>objs\<close> is the store of task
  objects; \<open>task_queue\<close> holds the addresses of the queue's entries in the order they were
  put; \<open>emitted\<close> is what was passed to \<open>event_bus.emit\<close>; \<open>retry_timers\<close> are the
  threads started by the retry branch that still sleep (address of the task, delay in
  seconds); \<open>async_loop\<close> tells whether the event loop was created. An entry of
  \<open>async_tasks\<close> is the future that \<open>run_coroutine_threadsafe\<close> returned: its state, and
  the address of the task that its done-callback \<open>on_complete\<close> closes over.
\<close>

record BatchProcessor =
  max_workers :: int
  use_processes :: bool
  conversion_func :: "conversion_callback option"
  async_conversion_func :: "conversion_callback option"
  objs :: "BatchTask list"
  task_queue :: "nat list"
  futures :: "(string \<times> future_state) list"
  async_tasks :: "(string \<times> future_state \<times> nat) list"
  is_paused :: bool
  is_cancelled :: bool
  tasks :: "(string \<times> nat) list"
  statistics :: BatchStatistics
  duplicate_hashes :: "string set"
  async_loop :: bool
  running :: bool
  use_async :: bool
  retry_timers :: "(nat \<times> nat) list"
  emitted :: "Event list"

definition new_processor ::
  "int \<Rightarrow> bool \<Rightarrow> conversion_callback option \<Rightarrow> conversion_callback option \<Rightarrow> BatchProcessor" where
  "new_processor workers procs conv async_conv =
     \<lparr>max_workers = workers, use_processes = procs, conversion_func = conv,
      async_conversion_func = async_conv, objs = [], task_queue = [], futures = [],
      async_tasks = [], is_paused = False, is_cancelled = False, tasks = [],
      statistics = new_statistics, duplicate_hashes = {}, async_loop = False,
      running = False, use_async = (async_conv \<noteq> None), retry_timers = [],
      emitted = []\<rparr>"

definition upd_task :: "nat \<Rightarrow> (BatchTask \<Rightarrow> BatchTask) \<Rightarrow> BatchProcessor \<Rightarrow> BatchProcessor" where
  "upd_task a f s = s\<lparr>objs := (objs s)[a := f (objs s ! a)]\<rparr>"

definition emit :: "Event \<Rightarrow> BatchProcessor \<Rightarrow> BatchProcessor" where
  "emit e s = s\<lparr>emitted := emitted s @ [e]\<rparr>"

text \<open>\<open>task.file_hash and task.file_hash in self.duplicate_hashes\<close>.\<close>

definition is_duplicate :: "string option \<Rightarrow> string set \<Rightarrow> bool" where
  "is_duplicate h hs = (case h of None \<Rightarrow> False | Some x \<Rightarrow> x \<noteq> [] \<and> x \<in> hs)"

definition add_hash :: "string option \<Rightarrow> string set \<Rightarrow> string set" where
  "add_hash h hs = (case h of None \<Rightarrow> hs | Some x \<Rightarrow> (if x \<noteq> [] then insert x hs else hs))"

text \<open>\<open>add_task\<close>; the result is the address of the returned task and the new state.\<close>

definition add_task ::
  "world \<Rightarrow> clock \<Rightarrow> BatchProcessor \<Rightarrow> path \<Rightarrow> path option \<Rightarrow> TaskPriority \<Rightarrow> int \<Rightarrow>
   nat \<times> BatchProcessor" where
  "add_task w clk s inp outp prio mr =
     (let task = new_task w clk inp outp prio mr;
          a = length (objs s)
      in
        if is_duplicate (file_hash task) (duplicate_hashes s) then
          (a, s\<lparr>objs := objs s @ [task\<lparr>status := CANCELLED, error_message := Some ''Duplicate file''\<rparr>],
                statistics := (statistics s)\<lparr>cancelled_tasks := cancelled_tasks (statistics s) + 1\<rparr>\<rparr>)
        else
          (a, emit \<lparr>event_type = CONVERSION_STARTED,
                    data = [(''task_id'', task_id task), (''input_file'', str_path inp)],
                    source = Some ''BatchProcessor''\<rparr>
                (s\<lparr>objs := objs s @ [task\<lparr>status := QUEUED\<rparr>],
                   tasks := AList.update (task_id task) a (tasks s),
                   task_queue := task_queue s @ [a],
                   duplicate_hashes := add_hash (file_hash task) (duplicate_hashes s),
                   statistics := bump_status QUEUED 1
                     ((statistics s)\<lparr>total_tasks := total_tasks (statistics s) + 1\<rparr>)\<rparr>)))"

text \<open>
  \<open>add_files\<close>. The call of \<open>add_task\<close> in the loop passes \<open>max_retries=max_retries\<close>, and
  \<open>add_files\<close> has no parameter or local variable of that name, nor has the module a global
  of that name: reading it raises NameError before \<open>add_task\<close> is called.
\<close>

definition read_max_retries :: "py_error + int" where
  "read_max_retries = Inl (NameError ''max_retries'')"

definition derive_output_file :: "path option \<Rightarrow> path \<Rightarrow> py_error + path option" where
  "derive_output_file output_dir file_path =
     (case output_dir of
        None \<Rightarrow> Inr None
      | Some d \<Rightarrow>
          (case with_suffix_md_name file_path of
             Inl e \<Rightarrow> Inl e
           | Inr nm \<Rightarrow> Inr (Some (joinpath d nm))))"

fun add_files_loop ::
  "world \<Rightarrow> (nat \<Rightarrow> clock) \<Rightarrow> path option \<Rightarrow> TaskPriority \<Rightarrow> path list \<Rightarrow>
   nat list \<Rightarrow> BatchProcessor \<Rightarrow> py_error + (nat list \<times> BatchProcessor)" where
  "add_files_loop w clk output_dir prio [] acc s = Inr (acc, s)"
| "add_files_loop w clk output_dir prio (file_path # rest) acc s =
     (case derive_output_file output_dir file_path of
        Inl e \<Rightarrow> Inl e
      | Inr out_file \<Rightarrow>
          (case read_max_retries of
             Inl e \<Rightarrow> Inl e
           | Inr mr \<Rightarrow>
               (case add_task w (clk (length acc)) s file_path out_file prio mr of
                  (task, s') \<Rightarrow> add_files_loop w clk output_dir prio rest (acc @ [task]) s')))"

definition add_files ::
  "world \<Rightarrow> (nat \<Rightarrow> clock) \<Rightarrow> BatchProcessor \<Rightarrow> path list \<Rightarrow> path option \<Rightarrow>
   FileFilter option \<Rightarrow> TaskPriority \<Rightarrow> py_error + (nat list \<times> BatchProcessor)" where
  "add_files w clk s file_paths output_dir file_filter prio =
     add_files_loop w clk output_dir prio
       (case file_filter of None \<Rightarrow> file_paths | Some f \<Rightarrow> filter_files w f file_paths) [] s"

subsection \<open>Lifecycle\<close>

definition start :: "int \<Rightarrow> BatchProcessor \<Rightarrow> BatchProcessor" where
  "start now s =
     (if running s then s
      else s\<lparr>running := True, is_paused := False, is_cancelled := False,
             async_loop := (if use_async s then True else async_loop s),
             statistics := (statistics s)\<lparr>start_time := Some now\<rparr>\<rparr>)"

definition pause :: "BatchProcessor \<Rightarrow> BatchProcessor" where
  "pause s = s\<lparr>is_paused := True\<rparr>"

definition resume :: "BatchProcessor \<Rightarrow> BatchProcessor" where
  "resume s = s\<lparr>is_paused := False\<rparr>"

subsection \<open>The dispatch loop\<close>

text \<open>
  \<open>queue.PriorityQueue\<close> is the standard library's heap over \<open>BatchTask.__lt__\<close>. What is
  used of it is its contract: \<open>get\<close> removes an entry such that no entry of the queue is
  less than it.
\<close>

definition can_get :: "BatchTask list \<Rightarrow> nat list \<Rightarrow> nat \<Rightarrow> bool" where
  "can_get os q a = (a \<in> set q \<and> list_all (\<lambda>b. \<not> task_lt (os ! b) (os ! a)) q)"

text \<open>The body of the loop after the task was taken and found not cancelled.\<close>

definition submit :: "int \<Rightarrow> BatchProcessor \<Rightarrow> nat \<Rightarrow> BatchProcessor" where
  "submit now s a =
     (let tid = task_id (objs s ! a);
          s1 = upd_task a (\<lambda>t. t\<lparr>status := PROCESSING, started_at := Some now\<rparr>) s;
          s2 = s1\<lparr>statistics := bump_status PROCESSING 1 (bump_status QUEUED (- 1) (statistics s1))\<rparr>
      in
        if use_async s2 \<and> async_loop s2
        then s2\<lparr>async_tasks := AList.update tid (FUT_PENDING, a) (async_tasks s2)\<rparr>
        else s2\<lparr>futures := AList.update tid FUT_PENDING (futures s2)\<rparr>)"

text \<open>One iteration of \<open>_worker_loop\<close> in which \<open>get\<close> returns the entry \<open>a\<close>. The result is
  \<open>None\<close> when there is no such iteration in this state: the loop has ended, it waits on
  the pause event, it leaves on the cancellation flag, or \<open>a\<close> is not what \<open>get\<close> returns.\<close>

definition worker_loop_iteration :: "int \<Rightarrow> BatchProcessor \<Rightarrow> nat \<Rightarrow> BatchProcessor option" where
  "worker_loop_iteration now s a =
     (if \<not> running s then None
      else if is_paused s then None
      else if is_cancelled s then None
      else if \<not> can_get (objs s) (task_queue s) a then None
      else
        (let s1 = s\<lparr>task_queue := remove1 a (task_queue s)\<rparr> in
         if is_cancelled s1 \<or> status (objs s1 ! a) = CANCELLED then Some s1
         else Some (submit now s1 a)))"

subsection \<open>Running a task\<close>

text \<open>Result normalisation: \<open>result.get("text_content", "")\<close>, \<open>result.text_content\<close> or
  \<open>str(result)\<close>.\<close>

fun result_text_of :: "conv_value \<Rightarrow> string" where
  "result_text_of (DictValue None) = []"
| "result_text_of (DictValue (Some txt)) = txt"
| "result_text_of (ObjectValue txt) = txt"
| "result_text_of (OtherValue txt) = txt"

definition str_input :: "BatchTask \<Rightarrow> string" where
  "str_input t = (case input_file t of None \<Rightarrow> ''None'' | Some p \<Rightarrow> str_path p)"

definition cancelled_result :: task_result where
  "cancelled_result = \<lparr>r_success = False, r_result_text = None, r_error = Some ''Task cancelled''\<rparr>"

text \<open>The shared body of \<open>_process_task\<close> and \<open>_process_task_async\<close> for the callback
  \<open>cb\<close>; the result is what the future of the submitted call gives.\<close>

definition process_with ::
  "conversion_callback option \<Rightarrow> string \<Rightarrow> BatchProcessor \<Rightarrow> nat \<Rightarrow> future_outcome" where
  "process_with cb missing s a =
     (case cb of
        None \<Rightarrow> RaisedException missing
      | Some f \<Rightarrow>
          (let t = objs s ! a in
           if is_cancelled s \<or> status t = CANCELLED then Returned cancelled_result
           else
             (case f (str_input t) (map_option str_path (output_file t)) of
                Raises msg \<Rightarrow>
                  Returned \<lparr>r_success = False, r_result_text = None, r_error = Some msg\<rparr>
              | Returns v \<Rightarrow>
                  Returned \<lparr>r_success = True, r_result_text = Some (result_text_of v),
                            r_error = None\<rparr>)))"

definition process_task :: "BatchProcessor \<Rightarrow> nat \<Rightarrow> future_outcome" where
  "process_task s a = process_with (conversion_func s) ''No conversion function provided'' s a"

definition process_task_async :: "BatchProcessor \<Rightarrow> nat \<Rightarrow> future_outcome" where
  "process_task_async s a =
     process_with (async_conversion_func s) ''No async conversion function provided'' s a"

subsection \<open>Completion handling\<close>

text \<open>\<open>max(0, tasks_by_status[PROCESSING] - 1)\<close> of the two exception branches.\<close>

definition dec_processing_floor :: "BatchStatistics \<Rightarrow> BatchStatistics" where
  "dec_processing_floor st =
     st\<lparr>tasks_by_status := (tasks_by_status st)(PROCESSING := max 0 (tasks_by_status st PROCESSING - 1))\<rparr>"

text \<open>
  \<open>_handle_task_result\<close>. Writing the result to the output file changes no state of the
  processor (a failure is logged), so it is not shown. The retry branch starts a thread
  that sleeps \<open>2 ** retry_count\<close> seconds and then runs \<open>requeue_after_delay\<close>.
\<close>

definition handle_task_result :: "int \<Rightarrow> BatchProcessor \<Rightarrow> nat \<Rightarrow> task_result \<Rightarrow> BatchProcessor" where
  "handle_task_result now s a r =
     (let t = objs s ! a in
      if r_success r then
        emit \<lparr>event_type = CONVERSION_COMPLETED,
              data = [(''task_id'', task_id t), (''input_file'', str_input t)],
              source = Some ''BatchProcessor''\<rparr>
          ((upd_task a (\<lambda>t. t\<lparr>status := COMPLETED, result_text := r_result_text r,
                                completed_at := Some now\<rparr>) s)
             \<lparr>statistics := bump_status COMPLETED 1 (bump_status PROCESSING (- 1)
                ((statistics s)\<lparr>completed_tasks := completed_tasks (statistics s) + 1\<rparr>))\<rparr>)
      else if retry_count t < max_retries t \<and> \<not> is_cancelled s then
        (upd_task a (\<lambda>t. t\<lparr>retry_count := retry_count t + 1, status := RETRYING\<rparr>) s)
          \<lparr>statistics := bump_status PROCESSING (- 1)
             ((statistics s)\<lparr>stats_retry_count := stats_retry_count (statistics s) + 1\<rparr>),
           retry_timers := retry_timers s @ [(a, 2 ^ nat (retry_count t + 1))]\<rparr>
      else
        emit \<lparr>event_type = CONVERSION_FAILED,
              data = [(''task_id'', task_id t),
                      (''error'', (case r_error r of None \<Rightarrow> ''None'' | Some e \<Rightarrow> e))],
              source = Some ''BatchProcessor''\<rparr>
          ((upd_task a (\<lambda>t. t\<lparr>status := FAILED, error_message := r_error r,
                                completed_at := Some now\<rparr>) s)
             \<lparr>statistics := bump_status FAILED 1 (bump_status PROCESSING (- 1)
                ((statistics s)\<lparr>failed_tasks := failed_tasks (statistics s) + 1\<rparr>))\<rparr>))"

text \<open>\<open>requeue_after_delay\<close>, after the sleep.\<close>

definition requeue_after_delay :: "BatchProcessor \<Rightarrow> nat \<Rightarrow> BatchProcessor" where
  "requeue_after_delay s a =
     (if \<not> is_cancelled s \<and> status (objs s ! a) = RETRYING then
        (upd_task a (\<lambda>t. t\<lparr>status := QUEUED\<rparr>) s)
          \<lparr>task_queue := task_queue s @ [a],
           statistics := bump_status QUEUED 1 (statistics s)\<rparr>
      else s)"

text \<open>A sleeping retry thread for the task at \<open>a\<close> wakes up.\<close>

definition retry_timer_fires :: "BatchProcessor \<Rightarrow> nat \<Rightarrow> BatchProcessor" where
  "retry_timer_fires s a =
     (case map_of (retry_timers s) a of
        None \<Rightarrow> s
      | Some d \<Rightarrow> requeue_after_delay (s\<lparr>retry_timers := remove1 (a, d) (retry_timers s)\<rparr>) a)"

text \<open>The \<open>except Exception\<close> branch shared by \<open>monitor_future\<close> and \<open>on_complete\<close>.\<close>

definition fail_on_exception :: "int \<Rightarrow> BatchProcessor \<Rightarrow> nat \<Rightarrow> string \<Rightarrow> BatchProcessor" where
  "fail_on_exception now s a msg =
     (upd_task a (\<lambda>t. t\<lparr>status := FAILED, error_message := Some msg, completed_at := Some now\<rparr>) s)
       \<lparr>statistics := bump_status FAILED 1 (dec_processing_floor
          ((statistics s)\<lparr>failed_tasks := failed_tasks (statistics s) + 1\<rparr>))\<rparr>"

text \<open>
  \<open>monitor_future\<close> of \<open>_handle_future\<close>, for what \<open>future.result(timeout=300)\<close> did.
  \<open>TimeoutError\<close> and \<open>concurrent.futures.CancelledError\<close> are subclasses of \<open>Exception\<close>;
  \<open>asyncio.CancelledError\<close> is not, so only the \<open>finally\<close> block runs for it.
\<close>

definition monitor_future :: "int \<Rightarrow> BatchProcessor \<Rightarrow> nat \<Rightarrow> future_outcome \<Rightarrow> BatchProcessor" where
  "monitor_future now s a outcome =
     (let s1 =
        (case outcome of
           Returned r \<Rightarrow> handle_task_result now s a r
         | RaisedAsyncioCancelledError \<Rightarrow> s
         | _ \<Rightarrow> fail_on_exception now s a (exception_str outcome))
      in s1\<lparr>futures := AList.delete (task_id (objs s1 ! a)) (futures s1)\<rparr>)"

text \<open>\<open>on_complete\<close> of \<open>_handle_async_task\<close>, for what \<open>future.result()\<close> did.\<close>

definition on_complete :: "int \<Rightarrow> BatchProcessor \<Rightarrow> nat \<Rightarrow> future_outcome \<Rightarrow> BatchProcessor" where
  "on_complete now s a outcome =
     (let s1 =
        (case outcome of
           Returned r \<Rightarrow> handle_task_result now s a r
         | RaisedAsyncioCancelledError \<Rightarrow>
             (upd_task a (\<lambda>t. t\<lparr>status := CANCELLED\<rparr>) s)
               \<lparr>statistics := dec_processing_floor
                  ((statistics s)\<lparr>cancelled_tasks := cancelled_tasks (statistics s) + 1\<rparr>)\<rparr>
         | _ \<Rightarrow> fail_on_exception now s a (exception_str outcome))
      in s1\<lparr>async_tasks := AList.delete (task_id (objs s1 ! a)) (async_tasks s1)\<rparr>)"

text \<open>The executor moves a future to another state.\<close>

definition set_future :: "string \<Rightarrow> future_state \<Rightarrow> BatchProcessor \<Rightarrow> BatchProcessor" where
  "set_future tid f s =
     s\<lparr>futures := (if map_of (futures s) tid = None then futures s
                    else AList.update tid f (futures s)),
       async_tasks := (case map_of (async_tasks s) tid of
                         None \<Rightarrow> async_tasks s
                       | Some (g, a) \<Rightarrow> AList.update tid (f, a) (async_tasks s))\<rparr>"

subsection \<open>Cancellation\<close>

text \<open>\<open>task.status = TaskStatus.CANCELLED; self.statistics.cancelled_tasks += 1\<close>.\<close>

definition mark_cancelled :: "nat \<Rightarrow> BatchProcessor \<Rightarrow> BatchProcessor" where
  "mark_cancelled a s =
     (upd_task a (\<lambda>t. t\<lparr>status := CANCELLED\<rparr>) s)
       \<lparr>statistics := (statistics s)\<lparr>cancelled_tasks := cancelled_tasks (statistics s) + 1\<rparr>\<rparr>"

text \<open>\<open>if task_id in self.tasks: self.tasks[task_id].status = CANCELLED; ...\<close>.\<close>

definition cancel_in_table :: "string \<Rightarrow> BatchProcessor \<Rightarrow> BatchProcessor" where
  "cancel_in_table tid s =
     (case map_of (tasks s) tid of None \<Rightarrow> s | Some a \<Rightarrow> mark_cancelled a s)"

text \<open>
  \<open>Future.cancel()\<close> of \<open>concurrent.futures\<close>, called on a future that is not done: a
  running future is left as it is; a pending one becomes cancelled and its done-callbacks
  run at once, in the calling thread. A future of the thread or process pool has no
  done-callback (its \<open>monitor_future\<close> thread waits in \<open>future.result\<close>). The future of a
  coroutine has \<open>on_complete\<close>, whose \<open>future.result()\<close> then raises
  \<open>concurrent.futures.CancelledError\<close>; \<open>now\<close> is the clock reading of that callback.
\<close>

definition cancel_async_future ::
  "int \<Rightarrow> future_state \<times> nat \<Rightarrow> BatchProcessor \<Rightarrow> BatchProcessor" where
  "cancel_async_future now fa s =
     (case fa of
        (fut, a) \<Rightarrow> (if fut = FUT_PENDING then on_complete now s a RaisedCancelledError else s))"

text \<open>The loop of \<open>cancel_all\<close> over the futures of the pool that are not done.\<close>

fun cancel_pending :: "(string \<times> future_state) list \<Rightarrow> BatchProcessor \<Rightarrow> BatchProcessor" where
  "cancel_pending [] s = s"
| "cancel_pending ((tid, fut) # rest) s =
     cancel_pending rest (if \<not> future_done fut then cancel_in_table tid s else s)"

text \<open>The loop of \<open>cancel_all\<close> over \<open>list(self.async_tasks.items())\<close>; \<open>now tid\<close> is the
  clock reading of the callback of the entry \<open>tid\<close>.\<close>

fun cancel_pending_async ::
  "(string \<Rightarrow> int) \<Rightarrow> (string \<times> future_state \<times> nat) list \<Rightarrow> BatchProcessor \<Rightarrow> BatchProcessor" where
  "cancel_pending_async now [] s = s"
| "cancel_pending_async now ((tid, fut, a) # rest) s =
     cancel_pending_async now rest
       (if \<not> future_done fut
        then cancel_in_table tid (cancel_async_future (now tid) (fut, a) s)
        else s)"

text \<open>The loop of \<open>cancel_all\<close> that empties the queue. The queue hands its entries out in
  priority order; the loop does the same to each entry, so the order does not show in
  the result.\<close>

fun drain_queue :: "nat list \<Rightarrow> BatchProcessor \<Rightarrow> BatchProcessor" where
  "drain_queue [] s = s\<lparr>task_queue := []\<rparr>"
| "drain_queue (a # q) s = drain_queue q (mark_cancelled a s)"

definition cancel_all :: "(string \<Rightarrow> int) \<Rightarrow> BatchProcessor \<Rightarrow> BatchProcessor" where
  "cancel_all now s =
     (let s1 = s\<lparr>is_cancelled := True\<rparr>;
          s2 = (cancel_pending (futures s1) s1)\<lparr>futures := []\<rparr>;
          s3 = (if async_loop s2 then cancel_pending_async now (async_tasks s2) s2 else s2);
          s4 = s3\<lparr>async_tasks := []\<rparr>
      in drain_queue (task_queue s4) s4)"

text \<open>
  \<open>cancel_task\<close>. The result is what the call returns or raises, and the new state: what
  was changed before an exception stays changed.
\<close>

text \<open>The third part: the task is in the table and still QUEUED.\<close>

definition cancel_task_queued ::
  "BatchProcessor \<Rightarrow> string \<Rightarrow> (py_error + bool) \<times> BatchProcessor" where
  "cancel_task_queued s tid =
     (case map_of (tasks s) tid of
        None \<Rightarrow> (Inr False, s)
      | Some a \<Rightarrow>
          (if status (objs s ! a) = QUEUED then (Inr True, mark_cancelled a s)
           else (Inr False, s)))"

text \<open>The second part. \<open>del self.async_tasks[task_id]\<close> raises KeyError when the callback
  that \<open>cancel()\<close> ran has deleted the entry.\<close>

definition cancel_task_async ::
  "int \<Rightarrow> BatchProcessor \<Rightarrow> string \<Rightarrow> (py_error + bool) \<times> BatchProcessor" where
  "cancel_task_async now s tid =
     (case map_of (async_tasks s) tid of
        None \<Rightarrow> cancel_task_queued s tid
      | Some fa \<Rightarrow>
          (if \<not> future_done (fst fa) then
             (let s1 = cancel_in_table tid (cancel_async_future now fa s) in
              if map_of (async_tasks s1) tid = None then (Inl (KeyError tid), s1)
              else (Inr True, s1\<lparr>async_tasks := AList.delete tid (async_tasks s1)\<rparr>))
           else cancel_task_queued s tid))"

definition cancel_task ::
  "int \<Rightarrow> BatchProcessor \<Rightarrow> string \<Rightarrow> (py_error + bool) \<times> BatchProcessor" where
  "cancel_task now s tid =
     (case map_of (futures s) tid of
        None \<Rightarrow> cancel_task_async now s tid
      | Some fut \<Rightarrow>
          (if \<not> future_done fut
           then (Inr True, (cancel_in_table tid s)\<lparr>futures := AList.delete tid (futures s)\<rparr>)
           else cancel_task_async now s tid))"

text \<open>\<open>stop\<close>. After \<open>cancel_all\<close> the table \<open>async_tasks\<close> is empty, so the second loop over
  it does nothing; \<open>now_end\<close> is the clock reading for \<open>end_time\<close>.\<close>

definition stop :: "(string \<Rightarrow> int) \<Rightarrow> int \<Rightarrow> BatchProcessor \<Rightarrow> BatchProcessor" where
  "stop now now_end s =
     (let s1 = cancel_all now (s\<lparr>running := False\<rparr>)
      in s1\<lparr>statistics := (statistics s1)\<lparr>end_time := Some now_end\<rparr>\<rparr>)"

subsection \<open>Executions\<close>

text \<open>
  The steps of the processor and of its threads. Each method and each callback body is
  one step; a step that cannot happen in a state leaves the state as it is.
\<close>

datatype action =
    AddTask clock path "path option" TaskPriority int
  | CancelTask int string
  | CancelAll "string \<Rightarrow> int"
  | Start int
  | Stop "string \<Rightarrow> int" int
  | Pause
  | Resume
  | WorkerTakes int nat
  | ExecutorSets string future_state
  | MonitorFuture int nat future_outcome
  | OnComplete int nat future_outcome
  | RetryTimerFires nat

fun apply_action :: "world \<Rightarrow> BatchProcessor \<Rightarrow> action \<Rightarrow> BatchProcessor" where
  "apply_action w s (AddTask clk inp outp prio mr) = snd (add_task w clk s inp outp prio mr)"
| "apply_action w s (CancelTask now tid) = snd (cancel_task now s tid)"
| "apply_action w s (CancelAll now) = cancel_all now s"
| "apply_action w s (Start now) = start now s"
| "apply_action w s (Stop now now_end) = stop now now_end s"
| "apply_action w s Pause = pause s"
| "apply_action w s Resume = resume s"
| "apply_action w s (WorkerTakes now a) =
     (case worker_loop_iteration now s a of None \<Rightarrow> s | Some s' \<Rightarrow> s')"
| "apply_action w s (ExecutorSets tid f) = set_future tid f s"
| "apply_action w s (MonitorFuture now a outcome) =
     (if a < length (objs s) then monitor_future now s a outcome else s)"
| "apply_action w s (OnComplete now a outcome) =
     (if a < length (objs s) then on_complete now s a outcome else s)"
| "apply_action w s (RetryTimerFires a) = retry_timer_fires s a"

definition run :: "world \<Rightarrow> BatchProcessor \<Rightarrow> action list \<Rightarrow> BatchProcessor" where
  "run w s acts = foldl (apply_action w) s acts"

subsection \<open>The filter as the specification words it\<close>

text \<open>
  A second definition, from the words of the specification and not from the code. The
  criteria are the allowed extensions (case-insensitive exact match against the suffix of
  the path), the least and the greatest size in bytes, the earliest and the latest
  modification time, a regular expression for the file name, excluded directories (exact
  match and ancestor containment, of the resolved paths) and excluded regular expressions
  for the path. A file matches iff it passes every configured criterion, a criterion that
  is not set being passed; a path whose size or modification time is unavailable does not
  match. A criterion is configured when a value was given for it, whatever the value.
\<close>

definition criterion :: "'a option \<Rightarrow> ('a \<Rightarrow> bool) \<Rightarrow> bool" where
  "criterion c test = (case c of None \<Rightarrow> True | Some v \<Rightarrow> test v)"

text \<open>The two strings are the same but for the case of their letters.\<close>

definition same_ignoring_case :: "world \<Rightarrow> string \<Rightarrow> string \<Rightarrow> bool" where
  "same_ignoring_case w a b = (str_lower w a = str_lower w b)"

text \<open>The moment a date bound stands for.\<close>

fun moment :: "py_datetime \<Rightarrow> int" where
  "moment (Naive d) = d"
| "moment (Aware d) = d"

text \<open>The directory \<open>d\<close> is above the path \<open>p\<close>: the parts of \<open>d\<close> are the first parts of
  \<open>p\<close>, and \<open>p\<close> has more. The empty path, the current directory, is above the relative
  paths only.\<close>

definition ancestor_of :: "path \<Rightarrow> path \<Rightarrow> bool" where
  "ancestor_of d p = (strict_prefix d p \<and> (d \<noteq> [] \<or> hd p \<noteq> ''/''))"

text \<open>The path as a string: its parts with the separator between them, none after the
  root; the empty path is written as a dot.\<close>

definition path_text :: "path \<Rightarrow> string" where
  "path_text p =
     (if p = [] then ''.''
      else if hd p = ''/'' then CHR ''/'' # drop 1 (concat (map ((#) CHR ''/'') (tl p)))
      else drop 1 (concat (map ((#) CHR ''/'') p)))"

definition excluded_spec :: "world \<Rightarrow> FileFilter \<Rightarrow> path \<Rightarrow> bool" where
  "excluded_spec w f p =
     (list_ex (\<lambda>e. case resolve w e of
                      None \<Rightarrow> False
                    | Some d \<Rightarrow>
                        (case resolve w p of
                           None \<Rightarrow> False
                         | Some rp \<Rightarrow> rp = d \<or> ancestor_of d rp))
        (exclude_paths f)
      \<or> list_ex (\<lambda>r. re_search w r (path_text p)) (exclude_patterns f))"

definition matches_spec :: "world \<Rightarrow> FileFilter \<Rightarrow> path \<Rightarrow> bool" where
  "matches_spec w f p =
     (case st_size w p of
        None \<Rightarrow> False
      | Some sz \<Rightarrow>
          (case mtime_datetime w p of
             None \<Rightarrow> False
           | Some mt \<Rightarrow>
               criterion (extensions f) (list_ex (same_ignoring_case w (path_suffix p)))
               \<and> criterion (min_size f) (\<lambda>m. m \<le> sz)
               \<and> criterion (max_size f) (\<lambda>m. sz \<le> m)
               \<and> criterion (min_date f) (\<lambda>d. moment d \<le> mt)
               \<and> criterion (max_date f) (\<lambda>d. mt \<le> moment d)
               \<and> criterion (name_pattern f) (\<lambda>r. re_search w r (path_name p))
               \<and> \<not> excluded_spec w f p))"

text \<open>
  What separates \<open>matches\<close> from these words. Its guards \<open>if self.extensions\<close>,
  \<open>self.min_size and ...\<close> and \<open>self.max_size and ...\<close> skip a value that Python takes as
  false, the empty list and the number 0: \<open>applied_criteria\<close> is the filter with these
  values unset. And a date bound that is aware makes the comparison raise.
\<close>

definition applied_criteria :: "FileFilter \<Rightarrow> FileFilter" where
  "applied_criteria f =
     f\<lparr>extensions := (case extensions f of
                        None \<Rightarrow> None
                      | Some es \<Rightarrow> (if es = [] then None else Some es)),
       min_size := (case min_size f of
                      None \<Rightarrow> None
                    | Some m \<Rightarrow> (if m = 0 then None else Some m)),
       max_size := (case max_size f of
                      None \<Rightarrow> None
                    | Some m \<Rightarrow> (if m = 0 then None else Some m))\<rparr>"

fun aware :: "py_datetime option \<Rightarrow> bool" where
  "aware (Some (Aware d)) = True"
| "aware b = False"

subsection \<open>One attempt at a task on the thread pool\<close>





subsection \<open>The notifications of the scheduler\<close>

text \<open>The event is a task-started, a task-completed or a task-failed notification.\<close>

definition lifecycle_event :: "Event \<Rightarrow> bool" where
  "lifecycle_event e =
     (event_type e = CONVERSION_STARTED \<or> event_type e = CONVERSION_COMPLETED
      \<or> event_type e = CONVERSION_FAILED)"

text \<open>The data of the event has the identifier of one of the tasks under \<open>task_id\<close>.\<close>

definition carries_task_id :: "BatchTask list \<Rightarrow> Event \<Rightarrow> bool" where
  "carries_task_id os e = list_ex (\<lambda>t. map_of (data e) ''task_id'' = Some (task_id t)) os"

text \<open>The number of futures in \<open>fs\<close> that are not done and whose key is in the table.\<close>

definition not_done_in_table :: "(string \<times> nat) list \<Rightarrow> (string \<times> future_state) list \<Rightarrow> nat" where
  "not_done_in_table tbl fs =
     length (filter (\<lambda>(tid, fut). \<not> future_done fut \<and> map_of tbl tid \<noteq> None) fs)"

text \<open>The done-callback of every future in \<open>async_tasks\<close> closes over the task that the
  table has under the key of the future.\<close>

definition callbacks_of_table :: "BatchProcessor \<Rightarrow> bool" where
  "callbacks_of_table s =
     list_all (\<lambda>(tid, fut, a). map_of (tasks s) tid = Some a) (async_tasks s)"

subsection \<open>Emptying the queue\<close>

text \<open>\<open>out\<close> is an order in which the queue with the entries \<open>q\<close> can hand out all of
  them by successive calls of \<open>get\<close>.\<close>

fun dequeues :: "BatchTask list \<Rightarrow> nat list \<Rightarrow> nat list \<Rightarrow> bool" where
  "dequeues os q [] = (q = [])"
| "dequeues os q (a # out) = (can_get os q a \<and> dequeues os (remove1 a q) out)"

subsection \<open>The heap of the standard library\<close>

text \<open>
  \<open>queue.PriorityQueue\<close> keeps its entries in a list, which \<open>heapq.heappush\<close> (for \<open>put\<close>) and
  \<open>heapq.heappop\<close> (for \<open>get\<close>) of the standard library keep as a binary heap. The
  functions below follow \<open>Lib/heapq.py\<close> of CPython: \<open>_siftdown\<close>, \<open>heappush\<close>, the loop of
  \<open>_siftup\<close>, \<open>_siftup\<close> and \<open>heappop\<close>; \<open>lt\<close> is the \<open><\<close> of the entries. They serve to run the
  queue on given entries; the processor above only uses the contract \<open>can_get\<close>.
\<close>

function siftdown :: "('a \<Rightarrow> 'a \<Rightarrow> bool) \<Rightarrow> 'a list \<Rightarrow> 'a \<Rightarrow> nat \<Rightarrow> nat \<Rightarrow> 'a list" where
  "siftdown lt heap newitem startpos pos =
     (if pos > startpos then
        (let parentpos = (pos - 1) div 2;
             parent = heap ! parentpos
         in if lt newitem parent
            then siftdown lt (heap[pos := parent]) newitem startpos parentpos
            else heap[pos := newitem])
      else heap[pos := newitem])"
  by pat_completeness auto
termination
  by (relation "measure (\<lambda>(lt, heap, newitem, startpos, pos). pos)") auto

definition heappush :: "('a \<Rightarrow> 'a \<Rightarrow> bool) \<Rightarrow> 'a list \<Rightarrow> 'a \<Rightarrow> 'a list" where
  "heappush lt heap item = siftdown lt (heap @ [item]) item 0 (length heap)"

function siftup_loop ::
  "('a \<Rightarrow> 'a \<Rightarrow> bool) \<Rightarrow> 'a list \<Rightarrow> nat \<Rightarrow> nat \<Rightarrow> nat \<Rightarrow> 'a list \<times> nat" where
  "siftup_loop lt heap pos childpos endpos =
     (if childpos < endpos then
        (let rightpos = childpos + 1;
             c = (if rightpos < endpos \<and> \<not> lt (heap ! childpos) (heap ! rightpos)
                  then rightpos else childpos)
         in siftup_loop lt (heap[pos := heap ! c]) c (2 * c + 1) endpos)
      else (heap, pos))"
  by pat_completeness auto
termination
  by (relation "measure (\<lambda>(lt, heap, pos, childpos, endpos). endpos - childpos)") auto

definition siftup :: "('a \<Rightarrow> 'a \<Rightarrow> bool) \<Rightarrow> 'a list \<Rightarrow> nat \<Rightarrow> 'a list" where
  "siftup lt heap pos =
     (let newitem = heap ! pos in
      case siftup_loop lt heap pos (2 * pos + 1) (length heap) of
        (heap', pos') \<Rightarrow> siftdown lt (heap'[pos' := newitem]) newitem pos pos')"

definition heappop :: "('a \<Rightarrow> 'a \<Rightarrow> bool) \<Rightarrow> 'a list \<Rightarrow> ('a \<times> 'a list) option" where
  "heappop lt heap =
     (if heap = [] then None
      else
        (let lastelt = last heap;
             heap1 = butlast heap
         in if heap1 \<noteq> [] then Some (heap1 ! 0, siftup lt (heap1[0 := lastelt]) 0)
            else Some (lastelt, [])))"

fun heap_gets :: "nat \<Rightarrow> ('a \<Rightarrow> 'a \<Rightarrow> bool) \<Rightarrow> 'a list \<Rightarrow> 'a list" where
  "heap_gets 0 lt heap = []"
| "heap_gets (Suc n) lt heap =
     (case heappop lt heap of
        None \<Rightarrow> []
      | Some (item, heap') \<Rightarrow> item # heap_gets n lt heap')"

definition heap_puts :: "('a \<Rightarrow> 'a \<Rightarrow> bool) \<Rightarrow> 'a list \<Rightarrow> 'a list" where
  "heap_puts lt items = foldl (heappush lt) [] items"

text \<open>All entries of a heap, in the order in which \<open>get\<close> returns them.\<close>

definition heap_drain :: "('a \<Rightarrow> 'a \<Rightarrow> bool) \<Rightarrow> 'a list \<Rightarrow> 'a list" where
  "heap_drain lt heap = heap_gets (length heap) lt heap"

subsection \<open>Example inputs\<close>

text \<open>\<open>str.lower\<close> on a string of ASCII characters.\<close>

definition ascii_lower_char :: "char \<Rightarrow> char" where
  "ascii_lower_char c =
     (case map_of (zip ''ABCDEFGHIJKLMNOPQRSTUVWXYZ'' ''abcdefghijklmnopqrstuvwxyz'') c of
        None \<Rightarrow> c
      | Some l \<Rightarrow> l)"

definition ascii_lower :: "string \<Rightarrow> string" where
  "ascii_lower s = map ascii_lower_char s"

text \<open>\<open>re.search\<close> for a pattern without special characters: the pattern is found iff it
  occurs in the string.\<close>

fun occurs_in :: "string \<Rightarrow> string \<Rightarrow> bool" where
  "occurs_in r [] = (r = [])"
| "occurs_in r (c # cs) = (take (length r) (c # cs) = r \<or> occurs_in r cs)"

text \<open>A file system in which every path but \<open>missing.pdf\<close> can be read, every file holds
  its own name and \<open>copy.pdf\<close> holds what \<open>a.pdf\<close> holds; and clock readings five
  milliseconds apart.\<close>

definition example_world :: world where
  "example_world =
     \<lparr>path_exists = (\<lambda>p. True),
      read_bytes = (\<lambda>p. if p = [''missing.pdf''] then None
                        else if p = [''copy.pdf''] then Some ''a.pdf''
                        else Some (concat p)),
      md5_hexdigest = (\<lambda>b. ''md5:'' @ b),
      st_size = (\<lambda>p. if p = [''missing.pdf''] then None else Some 100),
      mtime_datetime = (\<lambda>p. if p = [''missing.pdf''] then None else Some 0),
      resolve = (\<lambda>p. Some p),
      re_search = occurs_in,
      str_lower = ascii_lower\<rparr>"

definition clock_at :: "int \<Rightarrow> clock" where
  "clock_at t = \<lparr>time_time = t, datetime_now = t\<rparr>"

definition example_clock :: "nat \<Rightarrow> clock" where
  "example_clock n = clock_at (1000000 + 5000 * int n)"

text \<open>A thread-pool processor whose callback always raises.\<close>

definition example_processor :: BatchProcessor where
  "example_processor = new_processor 4 False (Some (\<lambda>inp outp. Raises ''boom'')) None"

text \<open>An event-loop processor whose coroutine always raises.\<close>

definition example_async_processor :: BatchProcessor where
  "example_async_processor = new_processor 4 False None (Some (\<lambda>inp outp. Raises ''boom''))"

text \<open>Two files are added, the processor is started and the dispatch loop has taken the
  first task: it is in flight and the second is on the queue.\<close>

definition one_in_flight :: "BatchProcessor \<Rightarrow> BatchProcessor" where
  "one_in_flight s =
     run example_world s
       [AddTask (clock_at 1000000) [''a.pdf''] None NORMAL 3,
        AddTask (clock_at 1005000) [''b.pdf''] None NORMAL 3,
        Start 0,
        WorkerTakes 1 0]"

section \<open>Properties\<close>

subsection \<open>add_files\<close>

lemma add_files_loop_raises:
  "add_files_loop w clk od prio (fp # rest) acc s =
     (case derive_output_file od fp of
        Inl e \<Rightarrow> Inl e
      | Inr out_file \<Rightarrow> Inl (NameError ''max_retries''))"
  by (simp add: read_max_retries_def split: sum.splits)

text \<open>
  C2. \<open>add_files\<close> is meant to return one task per surviving path. It does not: as soon as a
  path survives the filter, the first pass through the loop raises, either the ValueError
  of \<open>with_suffix\<close> on a path with an empty name or the NameError of the unbound name
  \<open>max_retries\<close>, and no task is added.
\<close>

theorem add_files_raises:
  assumes "(case ff of None \<Rightarrow> fps | Some f \<Rightarrow> filter_files w f fps) = fp # rest"
  shows "add_files w clk s fps od ff prio =
     (case derive_output_file od fp of
        Inl e \<Rightarrow> Inl e
      | Inr out_file \<Rightarrow> Inl (NameError ''max_retries''))"
  unfolding add_files_def assms by (rule add_files_loop_raises)

theorem add_files_raises_witness:
  "add_files example_world example_clock example_processor [[''a.pdf'']] (Some [''out'']) None NORMAL
     = Inl (NameError ''max_retries'')"
  using add_files_raises [where ff = None and fps = "[[''a.pdf'']]" and fp = "[''a.pdf'']"
      and rest = "[]" and w = example_world and clk = example_clock and s = example_processor
      and od = "Some [''out'']" and prio = NORMAL]
  by (simp add: derive_output_file_def with_suffix_md_name_def path_name_def name_suffix_def
      Let_def)

subsection \<open>FileFilter\<close>

lemma matches_iff:
  "matches w f p \<longleftrightarrow>
     extension_ok w f p
     \<and> (\<exists>sz. st_size w p = Some sz \<and> \<not> below_min_size (min_size f) sz
            \<and> \<not> above_max_size (max_size f) sz)
     \<and> (\<exists>mt. mtime_datetime w p = Some mt \<and> before_min_date (min_date f) mt = Inr False
            \<and> after_max_date (max_date f) mt = Inr False)
     \<and> name_pattern_ok w f p
     \<and> \<not> excluded_by_paths w (exclude_paths f) p
     \<and> \<not> excluded_by_patterns w (exclude_patterns f) (str_path p)"
  by (auto simp: matches_def matches_name_and_exclusions_def split: option.splits sum.splits)

lemma above_max_size_zero: "above_max_size (Some 0) sz = above_max_size None sz"
  by (simp add: above_max_size_def)

lemma below_min_size_zero: "below_min_size (Some 0) sz = below_min_size None sz"
  by (simp add: below_min_size_def)

text \<open>
  C10. A size bound of 0 is treated as no bound: a filter with \<open>max_size=0\<close> (or
  \<open>min_size=0\<close>) matches exactly the paths that the same filter without that bound matches,
  whatever the size of the file.
\<close>

theorem max_size_zero_is_unset:
  "matches w (f\<lparr>max_size := Some 0\<rparr>) p = matches w (f\<lparr>max_size := None\<rparr>) p
   \<and> matches w (f\<lparr>min_size := Some 0\<rparr>) p = matches w (f\<lparr>min_size := None\<rparr>) p"
  by (simp add: matches_iff extension_ok_def name_pattern_ok_def above_max_size_zero
      below_min_size_zero)

theorem max_size_zero_is_unset_witness:
  "matches example_world (FileFilter_init None None (Some 0) None None None None None) [''a.pdf'']"
  using max_size_zero_is_unset [where w = example_world
      and f = "FileFilter_init None None None None None None None None" and p = "[''a.pdf'']"]
  by (simp add: matches_iff extension_ok_def name_pattern_ok_def above_max_size_def
      below_min_size_def FileFilter_init_def example_world_def before_min_date_def
      after_max_date_def)

lemma filter_files_filter: "filter_files w f ps = filter (matches w f) ps"
  by (induction ps) simp_all

lemma strict_prefix_take: "strict_prefix d p \<longleftrightarrow> (\<exists>k<length p. d = take k p)"
proof
  assume "strict_prefix d p"
  then obtain z zs where "p = d @ z # zs" by (rule strict_prefixE')
  then have "length d < length p" "d = take (length d) p" by simp_all
  then show "\<exists>k<length p. d = take k p" by blast
next
  assume "\<exists>k<length p. d = take k p"
  then obtain k where k: "k < length p" "d = take k p" by blast
  then have "drop k p \<noteq> []" by simp
  then obtain z zs where "drop k p = z # zs" by (cases "drop k p") auto
  then have "p = d @ z # zs" using k(2) by (metis append_take_drop_id)
  then show "strict_prefix d p" by (rule strict_prefixI')
qed

lemma ancestor_take:
  "(\<exists>k. (if p \<noteq> [] \<and> hd p = ''/'' then 1 else 0) \<le> k \<and> k < length p \<and> d = take k p)
   \<longleftrightarrow> ancestor_of d p"
proof (cases "p \<noteq> [] \<and> hd p = ''/''")
  case True
  have "(\<exists>k. 1 \<le> k \<and> k < length p \<and> d = take k p) \<longleftrightarrow> (\<exists>k<length p. d = take k p) \<and> d \<noteq> []"
  proof
    assume "\<exists>k. 1 \<le> k \<and> k < length p \<and> d = take k p"
    then obtain k where k: "1 \<le> k" "k < length p" "d = take k p" by blast
    then have "d \<noteq> []" using True by (cases k) auto
    then show "(\<exists>k<length p. d = take k p) \<and> d \<noteq> []" using k by blast
  next
    assume "(\<exists>k<length p. d = take k p) \<and> d \<noteq> []"
    then obtain k where k: "k < length p" "d = take k p" and d: "d \<noteq> []" by blast
    then have "1 \<le> k" by (cases k) auto
    then show "\<exists>k. 1 \<le> k \<and> k < length p \<and> d = take k p" using k by blast
  qed
  then show ?thesis
    using True by (simp add: ancestor_of_def strict_prefix_take)
next
  case False
  then have "p = [] \<or> hd p \<noteq> ''/''" by blast
  then show ?thesis
    using False by (auto simp: ancestor_of_def strict_prefix_take)
qed

lemma concat_sep_join: "ps \<noteq> [] \<Longrightarrow> concat (map ((#) CHR ''/'') ps) = CHR ''/'' # join_parts ps"
  by (induction ps rule: join_parts.induct) simp_all

lemma join_text:
  "(case p of
      [] \<Rightarrow> ''.''
    | x # xs \<Rightarrow> (if x = ''/'' then ''/'' @ join_parts xs else join_parts (x # xs)))
   = path_text p"
proof (cases p)
  case Nil
  then show ?thesis by (simp add: path_text_def)
next
  case (Cons x xs)
  show ?thesis
  proof (cases xs)
    case Nil
    then show ?thesis using Cons by (simp add: path_text_def)
  next
    case (Cons y ys)
    then show ?thesis
      using \<open>p = x # xs\<close> concat_sep_join [of xs] concat_sep_join [of p]
      by (simp add: path_text_def)
  qed
qed

lemma rfind_absent: "c \<notin> set ys \<Longrightarrow> rfind c ys = None"
  by (induction ys) auto

lemma rfind_last: "c \<notin> set ys \<Longrightarrow> rfind c (xs @ c # ys) = Some (length xs)"
  by (induction xs) (simp_all add: rfind_absent)

lemma name_suffix_split:
  "CHR ''.'' \<notin> set ext \<Longrightarrow>
   name_suffix (stem @ CHR ''.'' # ext) = (if stem = [] \<or> ext = [] then [] else CHR ''.'' # ext)"
  by (auto simp: name_suffix_def rfind_last)

lemma name_suffix_no_dot: "CHR ''.'' \<notin> set nm \<Longrightarrow> name_suffix nm = []"
  by (simp add: name_suffix_def rfind_absent)

lemma path_name_last: "nm \<noteq> ''/'' \<Longrightarrow> path_name (dir @ [nm]) = nm"
  by (simp add: path_name_def)

lemma path_suffix_split:
  assumes "CHR ''.'' \<notin> set ext"
  shows "path_suffix (dir @ [stem @ CHR ''.'' # ext])
     = (if stem = [] \<or> ext = [] then [] else CHR ''.'' # ext)"
proof -
  have "stem @ CHR ''.'' # ext \<noteq> ''/''" by (cases stem) auto
  then have "path_name (dir @ [stem @ CHR ''.'' # ext]) = stem @ CHR ''.'' # ext"
    by (rule path_name_last)
  then show ?thesis
    unfolding path_suffix_def using name_suffix_split [OF assms, of stem] by simp
qed

lemma path_suffix_no_dot:
  assumes "CHR ''.'' \<notin> set nm"
  shows "path_suffix (dir @ [nm]) = []"
proof (cases "nm = ''/''")
  case True
  then show ?thesis
    by (simp add: path_suffix_def path_name_def name_suffix_def)
next
  case False
  then have "path_name (dir @ [nm]) = nm" by (rule path_name_last)
  then show ?thesis
    unfolding path_suffix_def using name_suffix_no_dot [OF assms] by simp
qed

lemma excluded_by_paths_list_ex:
  "excluded_by_paths w es p =
     list_ex (\<lambda>e. case resolve w e of
                     None \<Rightarrow> False
                   | Some d \<Rightarrow>
                       (case resolve w p of
                          None \<Rightarrow> False
                        | Some rp \<Rightarrow> rp = d \<or> d \<in> set (path_parents rp))) es"
  by (induction es) (auto split: option.splits)

lemma excluded_by_patterns_list_ex:
  "excluded_by_patterns w rs str = list_ex (\<lambda>r. re_search w r str) rs"
  by (induction rs) auto

lemma extension_ok_spec:
  "extension_ok w f p =
     criterion (extensions (applied_criteria f)) (list_ex (same_ignoring_case w (path_suffix p)))"
  by (auto simp: extension_ok_def criterion_def applied_criteria_def same_ignoring_case_def
      list_ex_iff image_iff split: option.splits)

lemma size_criteria:
  "below_min_size (min_size f) sz = (\<not> criterion (min_size (applied_criteria f)) (\<lambda>m. m \<le> sz))"
  "above_max_size (max_size f) sz = (\<not> criterion (max_size (applied_criteria f)) (\<lambda>m. sz \<le> m))"
  by (auto simp: criterion_def below_min_size_def above_max_size_def applied_criteria_def
      split: option.splits)

lemma date_criteria:
  "(before_min_date b mt = Inr False) = (\<not> aware b \<and> criterion b (\<lambda>d. moment d \<le> mt))"
  "(after_max_date b mt = Inr False) = (\<not> aware b \<and> criterion b (\<lambda>d. mt \<le> moment d))"
  by (auto simp: criterion_def before_min_date_def after_max_date_def
      split: option.splits py_datetime.splits)

lemma name_pattern_ok_spec:
  "name_pattern_ok w f p
     = criterion (name_pattern (applied_criteria f)) (\<lambda>r. re_search w r (path_name p))"
  by (simp add: name_pattern_ok_def criterion_def applied_criteria_def)

lemma applied_criteria_dates:
  "min_date (applied_criteria f) = min_date f" "max_date (applied_criteria f) = max_date f"
  by (simp_all add: applied_criteria_def)

lemma applied_criteria_id:
  "extensions f \<noteq> Some [] \<Longrightarrow> min_size f \<noteq> Some 0 \<Longrightarrow> max_size f \<noteq> Some 0 \<Longrightarrow>
   applied_criteria f = f"
  by (auto simp: applied_criteria_def split: option.splits)

text \<open>
  C9 (as amended). \<open>filter_files\<close> returns exactly the paths that \<open>matches\<close> accepts, in
  the order of the input. \<open>matches\<close> accepts a path iff no date bound is aware and the path
  passes, in the words of the specification (\<open>matches_spec\<close>), every criterion that
  \<open>matches\<close> applies: an extension list that is empty and a size bound that is 0 are not
  applied. For a filter without such values \<open>matches\<close> is \<open>matches_spec\<close>. A path whose size
  or modification time cannot be read is rejected; \<open>matches\<close> is a total function, no
  exception leaves it. The suffix that is compared is what follows the last dot of the
  last part of the path, the dot included, unless that dot is the first or the last
  character; the extension is compared after \<open>str.lower\<close> of both sides.
\<close>

theorem filter_files_correct:
  "filter_files w f ps = filter (matches w f) ps
   \<and> matches w f p
       = (\<not> aware (min_date f) \<and> \<not> aware (max_date f) \<and> matches_spec w (applied_criteria f) p)
   \<and> (extensions f \<noteq> Some [] \<and> min_size f \<noteq> Some 0 \<and> max_size f \<noteq> Some 0
        \<and> \<not> aware (min_date f) \<and> \<not> aware (max_date f)
      \<longrightarrow> matches w f p = matches_spec w f p)
   \<and> (st_size w p = None \<longrightarrow> \<not> matches w f p)
   \<and> (mtime_datetime w p = None \<longrightarrow> \<not> matches w f p)
   \<and> (CHR ''.'' \<notin> set ext \<longrightarrow>
        path_suffix (dir @ [stem @ CHR ''.'' # ext])
          = (if stem = [] \<or> ext = [] then [] else CHR ''.'' # ext))
   \<and> (CHR ''.'' \<notin> set nm \<longrightarrow> path_suffix (dir @ [nm]) = [])
   \<and> (nm \<noteq> ''/'' \<longrightarrow> path_name (dir @ [nm]) = nm)"
proof -
  have above: "d \<in> set (path_parents rp) \<longleftrightarrow> ancestor_of d rp" for d rp
  proof -
    have "d \<in> set (path_parents rp) \<longleftrightarrow>
        (\<exists>k. (if rp \<noteq> [] \<and> hd rp = ''/'' then 1 else 0) \<le> k \<and> k < length rp \<and> d = take k rp)"
      by (auto simp: path_parents_def)
    then show ?thesis by (simp only: ancestor_take)
  qed
  have written: "str_path p = path_text p"
    unfolding str_path_def by (rule join_text)
  have excluded: "excluded_spec w (applied_criteria f) p
      = (excluded_by_paths w (exclude_paths f) p
         \<or> excluded_by_patterns w (exclude_patterns f) (str_path p))"
    by (simp add: excluded_spec_def applied_criteria_def excluded_by_paths_list_ex
        excluded_by_patterns_list_ex above written cong: option.case_cong)
  have accepted: "matches w f p
      = (\<not> aware (min_date f) \<and> \<not> aware (max_date f) \<and> matches_spec w (applied_criteria f) p)"
    unfolding matches_iff matches_spec_def excluded extension_ok_spec
      size_criteria date_criteria name_pattern_ok_spec applied_criteria_dates
    by (cases "st_size w p"; cases "mtime_datetime w p"; auto)
  have "extensions f \<noteq> Some [] \<and> min_size f \<noteq> Some 0 \<and> max_size f \<noteq> Some 0
        \<and> \<not> aware (min_date f) \<and> \<not> aware (max_date f)
      \<longrightarrow> matches w f p = matches_spec w f p"
    using accepted by (auto simp: applied_criteria_id)
  moreover have "st_size w p = None \<longrightarrow> \<not> matches w f p"
    by (simp add: matches_iff)
  moreover have "mtime_datetime w p = None \<longrightarrow> \<not> matches w f p"
    by (simp add: matches_iff)
  ultimately show ?thesis
    using accepted path_suffix_split [of ext dir stem]
      path_suffix_no_dot [of nm dir] path_name_last [of nm dir]
    by (simp add: filter_files_filter)
qed

lemmas filter_defs =
  matches_iff extension_ok_def name_pattern_ok_def above_max_size_def below_min_size_def
  before_min_date_def after_max_date_def FileFilter_init_def example_world_def
  ascii_lower_def ascii_lower_char_def path_suffix_def path_name_def name_suffix_def
  path_parents_def str_path_def

theorem filter_files_correct_witness:
  "filter_files example_world
     (FileFilter_init (Some [''.PDF'']) (Some 50) (Some 200) (Some (Naive 0)) None
        (Some ''report'') (Some [[''/'', ''data'', ''private'']]) (Some [''draft'']))
     [[''/'', ''data'', ''report1.pdf''], [''/'', ''data'', ''notes.pdf''],
      [''/'', ''data'', ''private'', ''x'', ''report3.pdf''], [''/'', ''data'', ''report.txt''],
      [''/'', ''data'', ''draft'', ''report4.pdf''], [''missing.pdf''],
      [''/'', ''data'', ''old'', ''report2.Pdf'']]
   = [[''/'', ''data'', ''report1.pdf''], [''/'', ''data'', ''old'', ''report2.Pdf'']]
   \<and> \<not> matches example_world (FileFilter_init None None None None None None None None)
         [''missing.pdf'']
   \<and> path_suffix [''/'', ''data'', ''archive.tar.gz''] = ''.gz''
   \<and> path_suffix [''/'', ''data'', ''.profile''] = []
   \<and> path_suffix [''/'', ''data'', ''README''] = []
   \<and> path_name [''/'', ''data'', ''README''] = ''README''"
  using filter_files_correct [where w = example_world
      and f = "FileFilter_init None None None None None None None None"
      and ps = "[]" and p = "[''missing.pdf'']" and dir = "[''/'', ''data'']"
      and stem = "''archive.tar''" and ext = "''gz''" and nm = "''README''"]
  by (simp add: filter_defs)

text \<open>
  The claim as stated fails. A file of 100 bytes passes the filter whose \<open>max_size\<close> is 0,
  and a file with the suffix \<open>.pdf\<close> passes the filter whose extension list is empty,
  though neither passes that criterion; and a file modified at the very moment of an aware
  \<open>min_date\<close> passes that criterion and is rejected.
\<close>

theorem falsy_criteria_not_applied:
  "(let w = example_world;
        no_size = FileFilter_init None None (Some 0) None None None None None;
        no_extension = FileFilter_init (Some []) None None None None None None None;
        aware_bound = FileFilter_init None None None (Some (Aware 0)) None None None None
    in st_size w [''a.pdf''] = Some 100
       \<and> matches w no_size [''a.pdf''] \<and> \<not> matches_spec w no_size [''a.pdf'']
       \<and> matches w no_extension [''a.pdf''] \<and> \<not> matches_spec w no_extension [''a.pdf'']
       \<and> mtime_datetime w [''a.pdf''] = Some 0
       \<and> \<not> matches w aware_bound [''a.pdf''] \<and> matches_spec w aware_bound [''a.pdf''])"
  by (simp add: filter_defs matches_spec_def excluded_spec_def criterion_def Let_def)

subsection \<open>Evaluating executions\<close>

lemmas exec_defs =
  run_def add_task_def new_task_def post_init_def default_task_id_def str_int_def trunc_div_def
  digit_char_def is_duplicate_def add_hash_def emit_def bump_status_def upd_task_def
  new_processor_def new_statistics_def example_world_def example_processor_def clock_at_def
  example_clock_def str_path_def cancel_task_def cancel_task_async_def cancel_task_queued_def
  cancel_all_def cancel_in_table_def mark_cancelled_def cancel_async_future_def
  future_done_def Let_def

lemma post_init_fields:
  "task_id (post_init w t) = task_id t"
  "status (post_init w t) = status t"
  "retry_count (post_init w t) = retry_count t"
  "max_retries (post_init w t) = max_retries t"
  "priority (post_init w t) = priority t"
  "created_at (post_init w t) = created_at t"
  "error_message (post_init w t) = error_message t"
  by (simp_all add: post_init_def split: option.splits)


subsection \<open>Task identifiers\<close>

lemma same_millisecond_same_id:
  "trunc_div (time_time c) 1000 = trunc_div (time_time c') 1000 \<Longrightarrow>
   task_id (new_task w c inp outp prio mr) = task_id (new_task w c' inp' outp' prio' mr')"
  by (simp add: new_task_def post_init_fields default_task_id_def)

text \<open>
  C8. Task identifiers are meant to be unique. The identifier is the clock reading in whole
  milliseconds, so two tasks created within one millisecond get the same identifier: here
  two different files are added 0.8 ms apart, both tasks are queued under the identifier
  \<open>task_1000\<close>, and the task table, which is keyed by the identifier, keeps only the second.
\<close>

theorem task_ids_collide:
  "(let s = run example_world example_processor
              [AddTask (clock_at 1000100) [''a.pdf''] None NORMAL 3,
               AddTask (clock_at 1000900) [''b.pdf''] None NORMAL 3]
    in map input_file (objs s) = [Some [''a.pdf''], Some [''b.pdf'']]
       \<and> map status (objs s) = [QUEUED, QUEUED]
       \<and> map task_id (objs s) = [''task_1000'', ''task_1000'']
       \<and> tasks s = [(''task_1000'', 1)])"
  by (simp add: exec_defs)

subsection \<open>Duplicates and the statistics\<close>

text \<open>
  C1. Two tasks whose files have the same fingerprint: the first is queued, the second is
  marked CANCELLED with the error \<open>Duplicate file\<close>, is not put on the queue, is not entered
  in the task table and emits nothing, and \<open>cancelled_tasks\<close> counts it. \<open>total_tasks\<close>,
  however, grows by one only: the duplicate branch returns before the statement that
  counts the task.
\<close>

theorem duplicate_add_task:
  assumes "file_hash (new_task w c1 p1 o1 pr1 m1) = Some h"
    and "file_hash (new_task w c2 p2 o2 pr2 m2) = Some h"
    and "h \<noteq> []" and "h \<notin> duplicate_hashes s"
  shows "(case add_task w c1 s p1 o1 pr1 m1 of
            (a1, s1) \<Rightarrow>
              (case add_task w c2 s1 p2 o2 pr2 m2 of
                 (a2, s2) \<Rightarrow>
                   a1 \<noteq> a2
                   \<and> status (objs s2 ! a1) = QUEUED
                   \<and> status (objs s2 ! a2) = CANCELLED
                   \<and> error_message (objs s2 ! a2) = Some ''Duplicate file''
                   \<and> task_queue s2 = task_queue s @ [a1]
                   \<and> tasks s2 = tasks s1
                   \<and> emitted s2 = emitted s1
                   \<and> cancelled_tasks (statistics s2) = cancelled_tasks (statistics s) + 1
                   \<and> total_tasks (statistics s2) = total_tasks (statistics s) + 1))"
  using assms
  by (simp add: add_task_def Let_def is_duplicate_def add_hash_def emit_def bump_status_def
      nth_append)

theorem duplicate_add_task_witness:
  "(case add_task example_world (clock_at 1000000) example_processor [''a.pdf''] None NORMAL 3 of
      (a1, s1) \<Rightarrow>
        (case add_task example_world (clock_at 1005000) s1 [''copy.pdf''] None NORMAL 3 of
           (a2, s2) \<Rightarrow>
             map status (objs s2) = [QUEUED, CANCELLED]
             \<and> task_queue s2 = [a1]
             \<and> cancelled_tasks (statistics s2) = 1
             \<and> total_tasks (statistics s2) = 1))"
  using duplicate_add_task [where w = example_world and ?c1.0 = "clock_at 1000000"
      and ?c2.0 = "clock_at 1005000" and ?p1.0 = "[''a.pdf'']" and ?p2.0 = "[''copy.pdf'']"
      and ?o1.0 = None and ?o2.0 = None and ?pr1.0 = NORMAL and ?pr2.0 = NORMAL
      and ?m1.0 = 3 and ?m2.0 = 3 and h = "''md5:a.pdf''" and s = example_processor]
  by (simp add: exec_defs)

text \<open>
  C3. The counters are meant to satisfy completed + failed + cancelled \<le> total. They do
  not. A queued task that is cancelled by \<open>cancel_task\<close> stays on the queue, and \<open>cancel_all\<close>
  counts every entry of the queue without looking at its status (the dispatch loop does
  look): one task, \<open>cancel_task\<close>, \<open>cancel_all\<close>, and \<open>cancelled_tasks\<close> is 2 with
  \<open>total_tasks\<close> 1.
\<close>

theorem cancelled_exceeds_total:
  "(let s = run example_world example_processor
              [AddTask (clock_at 1000000) [''a.pdf''] None NORMAL 3,
               CancelTask 2 ''task_1000'',
               CancelAll (\<lambda>t. 3)]
    in total_tasks (statistics s) = 1
       \<and> completed_tasks (statistics s) = 0
       \<and> failed_tasks (statistics s) = 0
       \<and> cancelled_tasks (statistics s) = 2)"
  by (simp add: exec_defs)

text \<open>The same with duplicates alone: one file added three times.\<close>

lemma duplicates_exceed_total:
  "(let s = run example_world example_processor
              [AddTask (clock_at 1000000) [''a.pdf''] None NORMAL 3,
               AddTask (clock_at 1005000) [''copy.pdf''] None NORMAL 3,
               AddTask (clock_at 1010000) [''copy.pdf''] None NORMAL 3]
    in total_tasks (statistics s) = 1
       \<and> cancelled_tasks (statistics s) = 2
       \<and> map status (objs s) = [QUEUED, CANCELLED, CANCELLED])"
  by (simp add: exec_defs)

subsection \<open>Retry and exhaustion\<close>












subsection \<open>Timeouts\<close>

lemmas run_defs =
  exec_defs start_def worker_loop_iteration_def can_get_def submit_def task_lt_def
  monitor_future_def on_complete_def fail_on_exception_def dec_processing_floor_def
  handle_task_result_def retry_timer_fires_def requeue_after_delay_def set_future_def
  process_task_def process_with_def str_input_def

text \<open>
  C6 (as amended). When \<open>future.result(timeout=300)\<close> raises the timeout, \<open>monitor_future\<close>
  marks the task FAILED, with the (empty) text of the exception as its error message, and
  counts it in \<open>failed_tasks\<close>; whatever \<open>retry_count\<close> and \<open>max_retries\<close> are, the retry count
  is not touched, nothing is queued, no retry thread is started and no event is emitted.
\<close>

theorem timeout_is_terminal_failure:
  assumes "a < length (objs s)"
  shows "status (objs (monitor_future now s a RaisedTimeoutError) ! a) = FAILED
       \<and> error_message (objs (monitor_future now s a RaisedTimeoutError) ! a) = Some []
       \<and> retry_count (objs (monitor_future now s a RaisedTimeoutError) ! a)
           = retry_count (objs s ! a)
       \<and> task_queue (monitor_future now s a RaisedTimeoutError) = task_queue s
       \<and> retry_timers (monitor_future now s a RaisedTimeoutError) = retry_timers s
       \<and> failed_tasks (statistics (monitor_future now s a RaisedTimeoutError))
           = failed_tasks (statistics s) + 1
       \<and> stats_retry_count (statistics (monitor_future now s a RaisedTimeoutError))
           = stats_retry_count (statistics s)
       \<and> emitted (monitor_future now s a RaisedTimeoutError) = emitted s"
  using assms
  by (simp add: monitor_future_def fail_on_exception_def upd_task_def bump_status_def
      dec_processing_floor_def Let_def)

theorem timeout_is_terminal_failure_witness:
  "status (objs (monitor_future 300000001
      (run example_world example_processor
         [AddTask (clock_at 1000000) [''a.pdf''] None NORMAL 3, Start 0, WorkerTakes 1 0])
      0 RaisedTimeoutError) ! 0) = FAILED"
  using timeout_is_terminal_failure [where a = 0 and now = 300000001
      and s = "run example_world example_processor
         [AddTask (clock_at 1000000) [''a.pdf''] None NORMAL 3, Start 0, WorkerTakes 1 0]"]
  by (simp add: run_defs)

text \<open>The claim as stated fails: a task with no retry used and three allowed times out
  and is FAILED at once.\<close>

theorem timeout_not_retried:
  "(let s = run example_world example_processor
              [AddTask (clock_at 1000000) [''a.pdf''] None NORMAL 3,
               Start 0,
               WorkerTakes 1 0,
               ExecutorSets ''task_1000'' FUT_RUNNING,
               MonitorFuture 300000001 0 RaisedTimeoutError]
    in retry_count (objs s ! 0) = 0 \<and> max_retries (objs s ! 0) = 3 \<and> \<not> is_cancelled s
       \<and> status (objs s ! 0) = FAILED \<and> status (objs s ! 0) \<noteq> RETRYING
       \<and> task_queue s = [] \<and> retry_timers s = [])"
  by (simp add: run_defs)

subsection \<open>Task identifiers are not reassigned\<close>

lemma ids_update:
  assumes "task_id t' = task_id (os ! a)"
  shows "map task_id (os[a := t']) = map task_id os"
proof (cases "a < length os")
  case True
  then show ?thesis
    using assms by (simp add: map_update list_update_same_conv)
next
  case False
  then have "os[a := t'] = os" by (simp add: list_update_beyond)
  then show ?thesis by simp
qed

lemma ids_upd_task:
  "(\<And>t. task_id (f t) = task_id t) \<Longrightarrow> map task_id (objs (upd_task a f s)) = map task_id (objs s)"
  by (simp add: upd_task_def ids_update)

lemma ids_mark_cancelled: "map task_id (objs (mark_cancelled a s)) = map task_id (objs s)"
  by (simp add: mark_cancelled_def ids_upd_task)

lemma ids_cancel_in_table: "map task_id (objs (cancel_in_table tid s)) = map task_id (objs s)"
  by (simp add: cancel_in_table_def ids_mark_cancelled split: option.splits)

lemma ids_fail_on_exception:
  "map task_id (objs (fail_on_exception now s a msg)) = map task_id (objs s)"
  by (simp add: fail_on_exception_def ids_upd_task)

lemma ids_handle_task_result:
  "map task_id (objs (handle_task_result now s a r)) = map task_id (objs s)"
  by (simp add: handle_task_result_def Let_def emit_def ids_upd_task)

lemma ids_monitor_future:
  "map task_id (objs (monitor_future now s a outcome)) = map task_id (objs s)"
  by (cases outcome)
     (simp_all add: monitor_future_def Let_def ids_handle_task_result ids_fail_on_exception)

lemma ids_on_complete:
  "map task_id (objs (on_complete now s a outcome)) = map task_id (objs s)"
  by (cases outcome)
     (simp_all add: on_complete_def Let_def ids_handle_task_result ids_fail_on_exception
        ids_upd_task)

lemma ids_cancel_async_future:
  "map task_id (objs (cancel_async_future now fa s)) = map task_id (objs s)"
  by (simp add: cancel_async_future_def ids_on_complete split: prod.splits)

lemma ids_cancel_pending: "map task_id (objs (cancel_pending fs s)) = map task_id (objs s)"
  by (induction fs s rule: cancel_pending.induct) (simp_all add: ids_cancel_in_table)

lemma ids_cancel_pending_async:
  "map task_id (objs (cancel_pending_async now es s)) = map task_id (objs s)"
  by (induction now es s rule: cancel_pending_async.induct)
     (simp_all add: ids_cancel_in_table ids_cancel_async_future)

lemma ids_drain_queue: "map task_id (objs (drain_queue q s)) = map task_id (objs s)"
  by (induction q s rule: drain_queue.induct) (simp_all add: ids_mark_cancelled)

lemma ids_cancel_all: "map task_id (objs (cancel_all now s)) = map task_id (objs s)"
  by (simp add: cancel_all_def Let_def ids_drain_queue ids_cancel_pending
      ids_cancel_pending_async)

lemma ids_cancel_task: "map task_id (objs (snd (cancel_task now s tid))) = map task_id (objs s)"
  by (simp add: cancel_task_def cancel_task_async_def cancel_task_queued_def Let_def
      ids_cancel_in_table ids_mark_cancelled ids_cancel_async_future split: option.splits)

lemma ids_worker_loop_iteration:
  "worker_loop_iteration now s a = Some s' \<Longrightarrow> map task_id (objs s') = map task_id (objs s)"
  by (auto simp: worker_loop_iteration_def submit_def Let_def ids_upd_task split: if_splits)

lemma ids_retry_timer_fires: "map task_id (objs (retry_timer_fires s a)) = map task_id (objs s)"
  by (simp add: retry_timer_fires_def requeue_after_delay_def ids_upd_task split: option.splits)

lemma ids_add_task:
  "map task_id (objs (snd (add_task w clk s inp outp prio mr)))
     = map task_id (objs s) @ [task_id (new_task w clk inp outp prio mr)]"
  by (simp add: add_task_def Let_def emit_def)

lemma ids_apply_action:
  "\<exists>new. map task_id (objs (apply_action w s act)) = map task_id (objs s) @ new"
proof (cases act)
  case (AddTask clk inp outp prio mr)
  then show ?thesis by (simp add: ids_add_task)
next
  case (WorkerTakes now a)
  show ?thesis
  proof (cases "worker_loop_iteration now s a")
    case None
    then show ?thesis using WorkerTakes by simp
  next
    case (Some s')
    then show ?thesis using WorkerTakes ids_worker_loop_iteration [OF Some] by simp
  qed
qed (simp_all add: ids_cancel_task ids_cancel_all ids_monitor_future ids_on_complete
      ids_retry_timer_fires start_def stop_def pause_def resume_def set_future_def Let_def)

subsection \<open>Notifications\<close>

lemma carries_task_id_iff:
  "carries_task_id os e \<longleftrightarrow> (\<exists>x \<in> set (map task_id os). map_of (data e) ''task_id'' = Some x)"
  by (auto simp: carries_task_id_def list_ex_iff)

lemma carries_nth:
  assumes "a < length os" and "map_of (data e) ''task_id'' = Some (task_id (os ! a))"
    and "map task_id os' = map task_id os"
  shows "carries_task_id os' e"
proof -
  have "task_id (os ! a) \<in> set (map task_id os)"
    using assms(1) by (metis length_map nth_map nth_mem)
  then show ?thesis
    unfolding carries_task_id_iff assms(3) using assms(2) by blast
qed

lemma carries_more:
  "carries_task_id os e \<Longrightarrow> map task_id os' = map task_id os @ new \<Longrightarrow> carries_task_id os' e"
  unfolding carries_task_id_iff by auto

lemma emitted_mark_cancelled: "emitted (mark_cancelled a s) = emitted s"
  by (simp add: mark_cancelled_def upd_task_def)

lemma emitted_cancel_in_table: "emitted (cancel_in_table tid s) = emitted s"
  by (simp add: cancel_in_table_def emitted_mark_cancelled split: option.splits)

lemma emitted_fail_on_exception: "emitted (fail_on_exception now s a msg) = emitted s"
  by (simp add: fail_on_exception_def upd_task_def)

lemma emitted_cancel_async_future: "emitted (cancel_async_future now fa s) = emitted s"
  by (simp add: cancel_async_future_def on_complete_def Let_def emitted_fail_on_exception
      split: prod.splits)

lemma emitted_cancel_pending: "emitted (cancel_pending fs s) = emitted s"
  by (induction fs s rule: cancel_pending.induct) (simp_all add: emitted_cancel_in_table)

lemma emitted_cancel_pending_async: "emitted (cancel_pending_async now es s) = emitted s"
  by (induction now es s rule: cancel_pending_async.induct)
     (simp_all add: emitted_cancel_in_table emitted_cancel_async_future)

lemma emitted_drain_queue: "emitted (drain_queue q s) = emitted s"
  by (induction q s rule: drain_queue.induct) (simp_all add: emitted_mark_cancelled)

lemma emitted_cancel_all: "emitted (cancel_all now s) = emitted s"
  by (simp add: cancel_all_def Let_def emitted_drain_queue emitted_cancel_pending
      emitted_cancel_pending_async)

lemma emitted_cancel_task: "emitted (snd (cancel_task now s tid)) = emitted s"
  by (simp add: cancel_task_def cancel_task_async_def cancel_task_queued_def Let_def
      emitted_cancel_in_table emitted_mark_cancelled emitted_cancel_async_future
      split: option.splits)

lemma emitted_add_task:
  "emitted (snd (add_task w clk s inp outp prio mr)) = emitted s
   \<or> (\<exists>e. emitted (snd (add_task w clk s inp outp prio mr)) = emitted s @ [e]
          \<and> event_type e = CONVERSION_STARTED
          \<and> carries_task_id (objs (snd (add_task w clk s inp outp prio mr))) e)"
  by (simp add: add_task_def Let_def emit_def carries_task_id_def)

lemma emitted_handle_task_result:
  "emitted (handle_task_result now s a r) = emitted s
   \<or> (\<exists>e. emitted (handle_task_result now s a r) = emitted s @ [e]
          \<and> (event_type e = CONVERSION_COMPLETED \<or> event_type e = CONVERSION_FAILED)
          \<and> map_of (data e) ''task_id'' = Some (task_id (objs s ! a)))"
  by (simp add: handle_task_result_def Let_def emit_def upd_task_def)

lemma emitted_monitor_future:
  "emitted (monitor_future now s a outcome) = emitted s
   \<or> (\<exists>e. emitted (monitor_future now s a outcome) = emitted s @ [e]
          \<and> (event_type e = CONVERSION_COMPLETED \<or> event_type e = CONVERSION_FAILED)
          \<and> map_of (data e) ''task_id'' = Some (task_id (objs s ! a)))"
  using emitted_handle_task_result [of now s a]
  by (cases outcome) (simp_all add: monitor_future_def Let_def emitted_fail_on_exception)

lemma emitted_on_complete:
  "emitted (on_complete now s a outcome) = emitted s
   \<or> (\<exists>e. emitted (on_complete now s a outcome) = emitted s @ [e]
          \<and> (event_type e = CONVERSION_COMPLETED \<or> event_type e = CONVERSION_FAILED)
          \<and> map_of (data e) ''task_id'' = Some (task_id (objs s ! a)))"
  using emitted_handle_task_result [of now s a]
  by (cases outcome)
     (simp_all add: on_complete_def Let_def emitted_fail_on_exception upd_task_def)

lemma emitted_worker_loop_iteration:
  "worker_loop_iteration now s a = Some s' \<Longrightarrow> emitted s' = emitted s"
  by (auto simp: worker_loop_iteration_def submit_def upd_task_def Let_def split: if_splits)

lemma emitted_retry_timer_fires: "emitted (retry_timer_fires s a) = emitted s"
  by (simp add: retry_timer_fires_def requeue_after_delay_def upd_task_def split: option.splits)

lemma emitted_apply_action:
  "emitted (apply_action w s act) = emitted s
   \<or> (\<exists>e. emitted (apply_action w s act) = emitted s @ [e] \<and> lifecycle_event e
          \<and> carries_task_id (objs (apply_action w s act)) e)"
proof (cases act)
  case (AddTask clk inp outp prio mr)
  then show ?thesis
    using emitted_add_task [of w clk s inp outp prio mr] by (auto simp: lifecycle_event_def)
next
  case (MonitorFuture now a outcome)
  show ?thesis
  proof (cases "a < length (objs s)")
    case True
    then show ?thesis
      using MonitorFuture emitted_monitor_future [of now s a outcome]
        carries_nth [OF True _ ids_monitor_future [of now s a outcome]]
      by (auto simp: lifecycle_event_def)
  next
    case False
    then show ?thesis using MonitorFuture by simp
  qed
next
  case (OnComplete now a outcome)
  show ?thesis
  proof (cases "a < length (objs s)")
    case True
    then show ?thesis
      using OnComplete emitted_on_complete [of now s a outcome]
        carries_nth [OF True _ ids_on_complete [of now s a outcome]]
      by (auto simp: lifecycle_event_def)
  next
    case False
    then show ?thesis using OnComplete by simp
  qed
next
  case (WorkerTakes now a)
  then show ?thesis
    by (auto simp: emitted_worker_loop_iteration split: option.splits)
next
  case (Stop now now_end)
  then show ?thesis by (simp add: stop_def Let_def emitted_cancel_all)
qed (simp_all add: emitted_cancel_task emitted_cancel_all emitted_retry_timer_fires
      start_def pause_def resume_def set_future_def)

lemma events_run:
  "list_all (\<lambda>e. lifecycle_event e \<and> carries_task_id (objs s) e) (emitted s) \<Longrightarrow>
   list_all (\<lambda>e. lifecycle_event e \<and> carries_task_id (objs (run w s acts)) e)
     (emitted (run w s acts))"
proof (induction acts arbitrary: s)
  case Nil
  then show ?case by (simp add: run_def)
next
  case (Cons act acts)
  obtain new where new:
    "map task_id (objs (apply_action w s act)) = map task_id (objs s) @ new"
    using ids_apply_action by blast
  have old: "list_all (\<lambda>e. lifecycle_event e \<and> carries_task_id (objs (apply_action w s act)) e)
      (emitted s)"
    using Cons.prems carries_more [OF _ new] by (auto simp: list_all_iff)
  have "list_all (\<lambda>e. lifecycle_event e \<and> carries_task_id (objs (apply_action w s act)) e)
      (emitted (apply_action w s act))"
    using emitted_apply_action [of w s act] old by auto
  then have "list_all (\<lambda>e. lifecycle_event e
        \<and> carries_task_id (objs (run w (apply_action w s act) acts)) e)
      (emitted (run w (apply_action w s act) acts))"
    by (rule Cons.IH)
  then show ?case by (simp add: run_def)
qed

subsection \<open>What cancelling does to the task and to the counter\<close>

lemma mark_cancelled_frame:
  "length (objs (mark_cancelled a s)) = length (objs s)"
  "tasks (mark_cancelled a s) = tasks s"
  "task_queue (mark_cancelled a s) = task_queue s"
  "futures (mark_cancelled a s) = futures s"
  "async_tasks (mark_cancelled a s) = async_tasks s"
  "async_loop (mark_cancelled a s) = async_loop s"
  "cancelled_tasks (statistics (mark_cancelled a s)) = cancelled_tasks (statistics s) + 1"
  by (simp_all add: mark_cancelled_def upd_task_def)

lemma mark_cancelled_status:
  "b < length (objs s) \<Longrightarrow>
   status (objs (mark_cancelled a s) ! b) = (if b = a then CANCELLED else status (objs s ! b))"
  by (simp add: mark_cancelled_def upd_task_def nth_list_update)

lemma cancel_in_table_frame:
  "length (objs (cancel_in_table tid s)) = length (objs s)"
  "tasks (cancel_in_table tid s) = tasks s"
  "task_queue (cancel_in_table tid s) = task_queue s"
  "futures (cancel_in_table tid s) = futures s"
  "async_tasks (cancel_in_table tid s) = async_tasks s"
  "async_loop (cancel_in_table tid s) = async_loop s"
  "cancelled_tasks (statistics (cancel_in_table tid s))
     = cancelled_tasks (statistics s) + (if map_of (tasks s) tid \<noteq> None then 1 else 0)"
  by (simp_all add: cancel_in_table_def mark_cancelled_frame split: option.splits)

lemma cancel_in_table_status:
  "b < length (objs s) \<Longrightarrow>
   status (objs (cancel_in_table tid s) ! b)
     = (if map_of (tasks s) tid = Some b then CANCELLED else status (objs s ! b))"
  by (simp add: cancel_in_table_def mark_cancelled_status split: option.splits)

lemma cancel_async_future_frame:
  "length (objs (cancel_async_future now fa s)) = length (objs s)"
  "tasks (cancel_async_future now fa s) = tasks s"
  "task_queue (cancel_async_future now fa s) = task_queue s"
  "futures (cancel_async_future now fa s) = futures s"
  "async_loop (cancel_async_future now fa s) = async_loop s"
  "cancelled_tasks (statistics (cancel_async_future now fa s)) = cancelled_tasks (statistics s)"
  by (simp_all add: cancel_async_future_def on_complete_def fail_on_exception_def upd_task_def
      bump_status_def dec_processing_floor_def Let_def split: prod.splits)

lemma cancel_async_future_status:
  "b < length (objs s) \<Longrightarrow> b \<noteq> snd fa \<Longrightarrow>
   status (objs (cancel_async_future now fa s) ! b) = status (objs s ! b)"
  by (cases fa)
     (auto simp: cancel_async_future_def on_complete_def fail_on_exception_def upd_task_def
        Let_def nth_list_update)

text \<open>One pass of the loop over \<open>async_tasks\<close>, for an entry whose callback closes over
  the task of the table.\<close>

lemma cancel_entry_status:
  assumes "map_of (tasks s) tid = Some c" and "b < length (objs s)"
  shows "status (objs (cancel_in_table tid (cancel_async_future now (fut, c) s)) ! b)
     = (if b = c then CANCELLED else status (objs s ! b))"
  using assms
  by (simp add: cancel_in_table_status cancel_async_future_frame cancel_async_future_status)

lemma cancel_pending_frame:
  "length (objs (cancel_pending fs s)) = length (objs s)"
  "tasks (cancel_pending fs s) = tasks s"
  "task_queue (cancel_pending fs s) = task_queue s"
  "async_tasks (cancel_pending fs s) = async_tasks s"
  "async_loop (cancel_pending fs s) = async_loop s"
  by (induction fs s rule: cancel_pending.induct) (simp_all add: cancel_in_table_frame)

lemma cancel_pending_async_frame:
  "length (objs (cancel_pending_async now es s)) = length (objs s)"
  "tasks (cancel_pending_async now es s) = tasks s"
  "task_queue (cancel_pending_async now es s) = task_queue s"
  by (induction now es s rule: cancel_pending_async.induct)
     (simp_all add: cancel_in_table_frame cancel_async_future_frame)

lemma drain_queue_frame:
  "length (objs (drain_queue q s)) = length (objs s)"
  "cancelled_tasks (statistics (drain_queue q s)) = cancelled_tasks (statistics s) + int (length q)"
  by (induction q s rule: drain_queue.induct) (simp_all add: mark_cancelled_frame)

lemma cancelled_cancel_pending:
  "cancelled_tasks (statistics (cancel_pending fs s))
     = cancelled_tasks (statistics s) + int (not_done_in_table (tasks s) fs)"
  by (induction fs s rule: cancel_pending.induct)
     (simp_all add: cancel_in_table_frame not_done_in_table_def)

lemma cancelled_cancel_pending_async:
  "cancelled_tasks (statistics (cancel_pending_async now es s))
     = cancelled_tasks (statistics s)
       + int (not_done_in_table (tasks s) (map (\<lambda>(tid, fut, a). (tid, fut)) es))"
  by (induction now es s rule: cancel_pending_async.induct)
     (simp_all add: cancel_in_table_frame cancel_async_future_frame not_done_in_table_def)

lemma cancelled_cancel_all:
  "cancelled_tasks (statistics (cancel_all now s))
     = cancelled_tasks (statistics s)
       + int (not_done_in_table (tasks s) (futures s))
       + (if async_loop s
          then int (not_done_in_table (tasks s) (map (\<lambda>(tid, fut, a). (tid, fut)) (async_tasks s)))
          else 0)
       + int (length (task_queue s))"
  by (simp add: cancel_all_def Let_def drain_queue_frame cancelled_cancel_pending
      cancelled_cancel_pending_async cancel_pending_frame cancel_pending_async_frame)

lemma drain_queue_kept:
  "b < length (objs s) \<Longrightarrow> status (objs s ! b) = CANCELLED \<Longrightarrow>
   status (objs (drain_queue q s) ! b) = CANCELLED"
  by (induction q s rule: drain_queue.induct)
     (simp_all add: mark_cancelled_frame mark_cancelled_status)

lemma drain_queue_marked:
  "b \<in> set q \<Longrightarrow> b < length (objs s) \<Longrightarrow> status (objs (drain_queue q s) ! b) = CANCELLED"
proof (induction q s rule: drain_queue.induct)
  case (1 s)
  then show ?case by simp
next
  case (2 a q s)
  show ?case
  proof (cases "b = a")
    case True
    then have "status (objs (mark_cancelled a s) ! b) = CANCELLED"
      using "2.prems"(2) by (simp add: mark_cancelled_status)
    then show ?thesis
      using "2.prems"(2) by (simp add: drain_queue_kept mark_cancelled_frame)
  next
    case False
    then show ?thesis
      using "2.IH" "2.prems" by (simp add: mark_cancelled_frame)
  qed
qed

lemma cancel_pending_kept:
  "b < length (objs s) \<Longrightarrow> status (objs s ! b) = CANCELLED \<Longrightarrow>
   status (objs (cancel_pending fs s) ! b) = CANCELLED"
  by (induction fs s rule: cancel_pending.induct)
     (simp_all add: cancel_in_table_frame cancel_in_table_status)

lemma cancel_pending_marked:
  "(tid, fut) \<in> set fs \<Longrightarrow> \<not> future_done fut \<Longrightarrow> map_of (tasks s) tid = Some a \<Longrightarrow>
   a < length (objs s) \<Longrightarrow> status (objs (cancel_pending fs s) ! a) = CANCELLED"
proof (induction fs s rule: cancel_pending.induct)
  case (1 s)
  then show ?case by simp
next
  case (2 tid' fut' rest s)
  let ?s' = "if \<not> future_done fut' then cancel_in_table tid' s else s"
  have frame: "tasks ?s' = tasks s" "length (objs ?s') = length (objs s)"
    by (simp_all add: cancel_in_table_frame)
  show ?case
  proof (cases "(tid, fut) = (tid', fut')")
    case True
    then have "status (objs ?s' ! a) = CANCELLED"
      using "2.prems" by (simp add: cancel_in_table_status)
    then have "status (objs (cancel_pending rest ?s') ! a) = CANCELLED"
      using "2.prems"(4) frame by (intro cancel_pending_kept) simp_all
    then show ?thesis by simp
  next
    case False
    then have "(tid, fut) \<in> set rest" using "2.prems"(1) by auto
    then have "status (objs (cancel_pending rest ?s') ! a) = CANCELLED"
      using "2.prems" frame by (intro "2.IH") simp_all
    then show ?thesis by simp
  qed
qed

lemma cancel_pending_async_kept:
  "list_all (\<lambda>(tid, fut, c). map_of (tasks s) tid = Some c) es \<Longrightarrow>
   b < length (objs s) \<Longrightarrow> status (objs s ! b) = CANCELLED \<Longrightarrow>
   status (objs (cancel_pending_async now es s) ! b) = CANCELLED"
proof (induction now es s rule: cancel_pending_async.induct)
  case (1 now s)
  then show ?case by simp
next
  case (2 now tid fut c rest s)
  let ?s' = "if \<not> future_done fut
        then cancel_in_table tid (cancel_async_future (now tid) (fut, c) s) else s"
  have tbl: "map_of (tasks s) tid = Some c" using "2.prems"(1) by simp
  have frame: "tasks ?s' = tasks s" "length (objs ?s') = length (objs s)"
    by (simp_all add: cancel_in_table_frame cancel_async_future_frame)
  have "status (objs ?s' ! b) = CANCELLED"
    using "2.prems"(2,3) cancel_entry_status [OF tbl "2.prems"(2), of "now tid" fut] by simp
  moreover have "list_all (\<lambda>(tid, fut, c). map_of (tasks ?s') tid = Some c) rest"
    using "2.prems"(1) frame(1) by simp
  ultimately have "status (objs (cancel_pending_async now rest ?s') ! b) = CANCELLED"
    using "2.prems"(2) frame(2) by (intro "2.IH") simp_all
  then show ?case by simp
qed

lemma cancel_pending_async_marked:
  "list_all (\<lambda>(tid, fut, c). map_of (tasks s) tid = Some c) es \<Longrightarrow>
   (tid, fut, c) \<in> set es \<Longrightarrow> \<not> future_done fut \<Longrightarrow> c < length (objs s) \<Longrightarrow>
   status (objs (cancel_pending_async now es s) ! c) = CANCELLED"
proof (induction now es s rule: cancel_pending_async.induct)
  case (1 now s)
  then show ?case by simp
next
  case (2 now tid' fut' c' rest s)
  let ?s' = "if \<not> future_done fut'
        then cancel_in_table tid' (cancel_async_future (now tid') (fut', c') s) else s"
  have tbl: "map_of (tasks s) tid' = Some c'" using "2.prems"(1) by simp
  have frame: "tasks ?s' = tasks s" "length (objs ?s') = length (objs s)"
    by (simp_all add: cancel_in_table_frame cancel_async_future_frame)
  have all: "list_all (\<lambda>(tid, fut, c). map_of (tasks ?s') tid = Some c) rest"
    using "2.prems"(1) frame(1) by simp
  show ?case
  proof (cases "(tid, fut, c) = (tid', fut', c')")
    case True
    then have "status (objs ?s' ! c) = CANCELLED"
      using "2.prems"(3,4) cancel_entry_status [OF tbl, of c "now tid'" fut'] by simp
    then have "status (objs (cancel_pending_async now rest ?s') ! c) = CANCELLED"
      using all "2.prems"(4) frame(2) by (intro cancel_pending_async_kept) simp_all
    then show ?thesis by simp
  next
    case False
    then have "(tid, fut, c) \<in> set rest" using "2.prems"(2) by auto
    then have "status (objs (cancel_pending_async now rest ?s') ! c) = CANCELLED"
      using all "2.prems"(3,4) frame(2) by (intro "2.IH") simp_all
    then show ?thesis by simp
  qed
qed

lemma cancel_all_unfold:
  "cancel_all now s =
     drain_queue (task_queue s)
       ((if async_loop s
         then cancel_pending_async now (async_tasks s)
                ((cancel_pending (futures s) (s\<lparr>is_cancelled := True\<rparr>))\<lparr>futures := []\<rparr>)
         else (cancel_pending (futures s) (s\<lparr>is_cancelled := True\<rparr>))\<lparr>futures := []\<rparr>)
        \<lparr>async_tasks := []\<rparr>)"
  by (simp add: cancel_all_def Let_def cancel_pending_frame cancel_pending_async_frame)

lemma cancel_all_queue:
  "b \<in> set (task_queue s) \<Longrightarrow> b < length (objs s) \<Longrightarrow>
   status (objs (cancel_all now s) ! b) = CANCELLED"
  unfolding cancel_all_unfold
  by (rule drain_queue_marked) (simp_all add: cancel_pending_frame cancel_pending_async_frame)

lemma cancel_all_in_flight:
  assumes "callbacks_of_table s" and "a < length (objs s)"
    and "status (objs ((cancel_pending (futures s) (s\<lparr>is_cancelled := True\<rparr>))\<lparr>futures := []\<rparr>) ! a)
           = CANCELLED
         \<or> (async_loop s \<and> (\<exists>tid fut. (tid, fut, a) \<in> set (async_tasks s) \<and> \<not> future_done fut))"
  shows "status (objs (cancel_all now s) ! a) = CANCELLED"
proof -
  let ?s2 = "(cancel_pending (futures s) (s\<lparr>is_cancelled := True\<rparr>))\<lparr>futures := []\<rparr>"
  let ?s3 = "if async_loop s then cancel_pending_async now (async_tasks s) ?s2 else ?s2"
  have all: "list_all (\<lambda>(tid, fut, c). map_of (tasks ?s2) tid = Some c) (async_tasks s)"
    using assms(1) by (simp add: callbacks_of_table_def cancel_pending_frame)
  have len: "a < length (objs ?s2)"
    using assms(2) by (simp add: cancel_pending_frame)
  have "status (objs ?s3 ! a) = CANCELLED"
    using assms(3)
  proof
    assume "status (objs ?s2 ! a) = CANCELLED"
    then show ?thesis
      using cancel_pending_async_kept [OF all len, of now] by simp
  next
    assume "async_loop s \<and> (\<exists>tid fut. (tid, fut, a) \<in> set (async_tasks s) \<and> \<not> future_done fut)"
    then show ?thesis
      using cancel_pending_async_marked [OF all _ _ len, of _ _ now] by auto
  qed
  moreover have "a < length (objs ?s3)"
    using assms(2) by (simp add: cancel_pending_frame cancel_pending_async_frame)
  ultimately show ?thesis
    unfolding cancel_all_unfold by (intro drain_queue_kept) simp_all
qed

lemma cancel_all_futures:
  assumes "callbacks_of_table s" and "(tid, fut) \<in> set (futures s)" and "\<not> future_done fut"
    and "map_of (tasks s) tid = Some a" and "a < length (objs s)"
  shows "status (objs (cancel_all now s) ! a) = CANCELLED"
proof -
  have "status (objs (cancel_pending (futures s) (s\<lparr>is_cancelled := True\<rparr>)) ! a) = CANCELLED"
    using assms(2-5) by (intro cancel_pending_marked [of tid fut]) simp_all
  then show ?thesis
    using assms(1,5) by (intro cancel_all_in_flight) simp_all
qed

lemma cancel_all_async:
  assumes "callbacks_of_table s" and "async_loop s" and "(tid, fut, c) \<in> set (async_tasks s)"
    and "\<not> future_done fut" and "c < length (objs s)"
  shows "status (objs (cancel_all now s) ! c) = CANCELLED"
  using assms by (intro cancel_all_in_flight) auto

lemma cancel_task_false:
  "fst (cancel_task now s tid) = Inr False \<Longrightarrow> snd (cancel_task now s tid) = s"
  by (auto simp: cancel_task_def cancel_task_async_def cancel_task_queued_def Let_def
      split: option.splits if_splits)

text \<open>
  C7 (as amended). Cancelling a task marks it and counts it, and emits nothing.
  \<open>cancel_task\<close>, unless it returns False (and then it changes nothing), leaves the task
  that the table has under the identifier CANCELLED and \<open>cancelled_tasks\<close> one higher.
  \<open>cancel_all\<close> leaves every task of the queue CANCELLED and, where the callback of every
  coroutine future is for the task of the table, also the task of every future that was
  not done; \<open>cancelled_tasks\<close> grows by one for each entry of the queue and for each future
  that was not done and whose key is in the table. The cancellation branch of
  \<open>on_complete\<close> leaves its task CANCELLED and \<open>cancelled_tasks\<close> one higher. None of the
  three emits an event. And in every execution of a new processor, every event emitted is
  a task-started (emitted when the task is queued), a task-completed or a task-failed
  event that carries the identifier of one of the tasks: three kinds of notification, and
  never a task-cancelled one.
\<close>

theorem no_cancelled_notification:
  "(map_of (tasks s) tid = Some a \<and> a < length (objs s) \<and> fst (cancel_task now s tid) \<noteq> Inr False
      \<longrightarrow> status (objs (snd (cancel_task now s tid)) ! a) = CANCELLED
        \<and> cancelled_tasks (statistics (snd (cancel_task now s tid)))
            = cancelled_tasks (statistics s) + 1)
   \<and> (fst (cancel_task now s tid) = Inr False \<longrightarrow> snd (cancel_task now s tid) = s)
   \<and> emitted (snd (cancel_task now s tid)) = emitted s
   \<and> (\<forall>b \<in> set (task_queue s).
         b < length (objs s) \<longrightarrow> status (objs (cancel_all nows s) ! b) = CANCELLED)
   \<and> (callbacks_of_table s \<longrightarrow>
         (\<forall>(t, fut) \<in> set (futures s).
            \<not> future_done fut \<and> map_of (tasks s) t = Some d \<and> d < length (objs s)
            \<longrightarrow> status (objs (cancel_all nows s) ! d) = CANCELLED)
         \<and> (async_loop s \<longrightarrow>
              (\<forall>(t, fut, c) \<in> set (async_tasks s).
                 \<not> future_done fut \<and> c < length (objs s)
                 \<longrightarrow> status (objs (cancel_all nows s) ! c) = CANCELLED)))
   \<and> cancelled_tasks (statistics (cancel_all nows s))
       = cancelled_tasks (statistics s)
         + int (not_done_in_table (tasks s) (futures s))
         + (if async_loop s
            then int (not_done_in_table (tasks s)
                        (map (\<lambda>(t, fut, c). (t, fut)) (async_tasks s)))
            else 0)
         + int (length (task_queue s))
   \<and> emitted (cancel_all nows s) = emitted s
   \<and> (c < length (objs s) \<longrightarrow>
         status (objs (on_complete now s c RaisedAsyncioCancelledError) ! c) = CANCELLED)
   \<and> cancelled_tasks (statistics (on_complete now s c RaisedAsyncioCancelledError))
       = cancelled_tasks (statistics s) + 1
   \<and> emitted (on_complete now s c RaisedAsyncioCancelledError) = emitted s
   \<and> (\<forall>e \<in> set (emitted (run w (new_processor workers procs conv async_conv) acts)).
         (event_type e = CONVERSION_STARTED \<or> event_type e = CONVERSION_COMPLETED
          \<or> event_type e = CONVERSION_FAILED)
         \<and> carries_task_id (objs (run w (new_processor workers procs conv async_conv) acts)) e)"
proof -
  let ?new = "new_processor workers procs conv async_conv"
  have "list_all (\<lambda>e. lifecycle_event e \<and> carries_task_id (objs ?new) e) (emitted ?new)"
    by (simp add: new_processor_def)
  then have "list_all (\<lambda>e. lifecycle_event e \<and> carries_task_id (objs (run w ?new acts)) e)
      (emitted (run w ?new acts))"
    by (rule events_run)
  then have events: "\<forall>e \<in> set (emitted (run w ?new acts)).
         (event_type e = CONVERSION_STARTED \<or> event_type e = CONVERSION_COMPLETED
          \<or> event_type e = CONVERSION_FAILED)
         \<and> carries_task_id (objs (run w ?new acts)) e"
    by (simp add: list_all_iff lifecycle_event_def)
  have mark: "status (objs (mark_cancelled b t) ! b) = CANCELLED
      \<and> cancelled_tasks (statistics (mark_cancelled b t)) = cancelled_tasks (statistics t) + 1"
    if "b < length (objs t)" for b t
    using that by (simp add: mark_cancelled_def upd_task_def)
  have task: "map_of (tasks s) tid = Some a \<and> a < length (objs s)
      \<and> fst (cancel_task now s tid) \<noteq> Inr False
      \<longrightarrow> status (objs (snd (cancel_task now s tid)) ! a) = CANCELLED
        \<and> cancelled_tasks (statistics (snd (cancel_task now s tid)))
            = cancelled_tasks (statistics s) + 1"
    using mark [of a s] mark [of a "cancel_async_future now fa s" for fa]
    by (auto simp: cancel_task_def cancel_task_async_def cancel_task_queued_def Let_def
        cancel_in_table_def cancel_async_future_frame split: option.splits if_splits)
  have queue: "\<forall>b \<in> set (task_queue s).
         b < length (objs s) \<longrightarrow> status (objs (cancel_all nows s) ! b) = CANCELLED"
    using cancel_all_queue by blast
  have pool: "callbacks_of_table s \<longrightarrow>
         (\<forall>(t, fut) \<in> set (futures s).
            \<not> future_done fut \<and> map_of (tasks s) t = Some d \<and> d < length (objs s)
            \<longrightarrow> status (objs (cancel_all nows s) ! d) = CANCELLED)"
    using cancel_all_futures [of s _ _ d nows] by blast
  have loop: "callbacks_of_table s \<longrightarrow> async_loop s \<longrightarrow>
              (\<forall>(t, fut, c) \<in> set (async_tasks s).
                 \<not> future_done fut \<and> c < length (objs s)
                 \<longrightarrow> status (objs (cancel_all nows s) ! c) = CANCELLED)"
    using cancel_all_async [of s _ _ _ nows] by blast
  have cb: "(c < length (objs s) \<longrightarrow>
         status (objs (on_complete now s c RaisedAsyncioCancelledError) ! c) = CANCELLED)
      \<and> cancelled_tasks (statistics (on_complete now s c RaisedAsyncioCancelledError))
          = cancelled_tasks (statistics s) + 1
      \<and> emitted (on_complete now s c RaisedAsyncioCancelledError) = emitted s"
    by (simp add: on_complete_def upd_task_def dec_processing_floor_def Let_def)
  show ?thesis
    using events task queue pool loop cb cancel_task_false [of now s tid]
    by (simp only: emitted_cancel_task emitted_cancel_all cancelled_cancel_all) blast
qed

theorem no_cancelled_notification_witness:
  "(let sp = one_in_flight example_processor;
        sa = one_in_flight example_async_processor
    in fst (cancel_task 5 sp ''task_1005'') = Inr True
       \<and> map status (objs (snd (cancel_task 5 sp ''task_1005''))) = [PROCESSING, CANCELLED]
       \<and> cancelled_tasks (statistics (snd (cancel_task 5 sp ''task_1005''))) = 1
       \<and> fst (cancel_task 5 sa ''task_1000'') = Inl (KeyError ''task_1000'')
       \<and> map status (objs (snd (cancel_task 5 sa ''task_1000''))) = [CANCELLED, QUEUED]
       \<and> cancelled_tasks (statistics (snd (cancel_task 5 sa ''task_1000''))) = 1
       \<and> failed_tasks (statistics (snd (cancel_task 5 sa ''task_1000''))) = 1
       \<and> map status (objs (cancel_all (\<lambda>t. 5) sp)) = [CANCELLED, CANCELLED]
       \<and> cancelled_tasks (statistics (cancel_all (\<lambda>t. 5) sp)) = 2
       \<and> map status (objs (cancel_all (\<lambda>t. 5) sa)) = [CANCELLED, CANCELLED]
       \<and> cancelled_tasks (statistics (cancel_all (\<lambda>t. 5) sa)) = 2
       \<and> failed_tasks (statistics (cancel_all (\<lambda>t. 5) sa)) = 1
       \<and> map status (objs (on_complete 5 sa 0 RaisedAsyncioCancelledError)) = [CANCELLED, QUEUED]
       \<and> map event_type (emitted (cancel_all (\<lambda>t. 5) sa)) = [CONVERSION_STARTED, CONVERSION_STARTED]
       \<and> map (\<lambda>e. map_of (data e) ''task_id'') (emitted (cancel_all (\<lambda>t. 5) sa))
           = [Some ''task_1000'', Some ''task_1005''])"
proof -
  have run:
    "(let sp = one_in_flight example_processor;
          sa = one_in_flight example_async_processor
      in fst (cancel_task 5 sp ''task_1005'') = Inr True
         \<and> map status (objs (snd (cancel_task 5 sp ''task_1005''))) = [PROCESSING, CANCELLED]
         \<and> cancelled_tasks (statistics (snd (cancel_task 5 sp ''task_1005''))) = 1
         \<and> fst (cancel_task 5 sa ''task_1000'') = Inl (KeyError ''task_1000'')
         \<and> map status (objs (snd (cancel_task 5 sa ''task_1000''))) = [CANCELLED, QUEUED]
         \<and> cancelled_tasks (statistics (snd (cancel_task 5 sa ''task_1000''))) = 1
         \<and> failed_tasks (statistics (snd (cancel_task 5 sa ''task_1000''))) = 1
         \<and> map status (objs (cancel_all (\<lambda>t. 5) sp)) = [CANCELLED, CANCELLED]
         \<and> cancelled_tasks (statistics (cancel_all (\<lambda>t. 5) sp)) = 2
         \<and> map status (objs (cancel_all (\<lambda>t. 5) sa)) = [CANCELLED, CANCELLED]
         \<and> cancelled_tasks (statistics (cancel_all (\<lambda>t. 5) sa)) = 2
         \<and> failed_tasks (statistics (cancel_all (\<lambda>t. 5) sa)) = 1
         \<and> map status (objs (on_complete 5 sa 0 RaisedAsyncioCancelledError)) = [CANCELLED, QUEUED]
         \<and> map event_type (emitted (cancel_all (\<lambda>t. 5) sa)) = [CONVERSION_STARTED, CONVERSION_STARTED]
         \<and> map (\<lambda>e. map_of (data e) ''task_id'') (emitted (cancel_all (\<lambda>t. 5) sa))
             = [Some ''task_1000'', Some ''task_1005''])"
    by (simp add: one_in_flight_def example_async_processor_def run_defs)
  show ?thesis
    using no_cancelled_notification [where s = "one_in_flight example_processor"
        and tid = "''task_1005''" and a = 1 and now = 5 and nows = "\<lambda>t. 5" and d = 0 and c = 0
        and w = example_world and workers = 4 and procs = False
        and conv = "Some (\<lambda>inp outp. Raises ''boom'')" and async_conv = None
        and acts = "[AddTask (clock_at 1000000) [''a.pdf''] None NORMAL 3,
                     AddTask (clock_at 1005000) [''b.pdf''] None NORMAL 3,
                     Start 0, WorkerTakes 1 0, CancelAll (\<lambda>t. 5)]"]
      no_cancelled_notification [where s = "one_in_flight example_async_processor"
        and tid = "''task_1000''" and a = 0 and now = 5 and nows = "\<lambda>t. 5" and d = 0 and c = 0
        and w = example_world and workers = 4 and procs = False
        and conv = None and async_conv = "Some (\<lambda>inp outp. Raises ''boom'')"
        and acts = "[AddTask (clock_at 1000000) [''a.pdf''] None NORMAL 3,
                     AddTask (clock_at 1005000) [''b.pdf''] None NORMAL 3,
                     Start 0, WorkerTakes 1 0, CancelTask 5 ''task_1000'']"]
      run
    by (simp only:)
qed

text \<open>The claim as stated fails: a task cancelled by \<open>cancel_task\<close>, and one cancelled by
  \<open>cancel_all\<close>, end CANCELLED, and the only event emitted is the one of \<open>add_task\<close>.\<close>

theorem cancelled_without_notification:
  "(let s = run example_world example_processor
              [AddTask (clock_at 1000000) [''a.pdf''] None NORMAL 3,
               CancelTask 2 ''task_1000''];
        s' = run example_world example_processor
              [AddTask (clock_at 1000000) [''a.pdf''] None NORMAL 3,
               CancelAll (\<lambda>t. 2)]
    in status (objs s ! 0) = CANCELLED
       \<and> map event_type (emitted s) = [CONVERSION_STARTED]
       \<and> status (objs s' ! 0) = CANCELLED
       \<and> map event_type (emitted s') = [CONVERSION_STARTED])"
  by (simp add: run_defs)

subsection \<open>The order of the queue\<close>

lemma dequeues_mset: "dequeues os q out \<Longrightarrow> mset out = mset q"
proof (induction out arbitrary: q)
  case Nil
  then show ?case by simp
next
  case (Cons a out)
  from Cons.prems have mem: "a \<in> set q" and rest: "dequeues os (remove1 a q) out"
    by (simp_all add: can_get_def)
  have "mset out = mset (remove1 a q)"
    by (rule Cons.IH [OF rest])
  then show ?case using mem by simp
qed

lemma dequeues_sorted:
  "dequeues os q out \<Longrightarrow> sorted_wrt (\<lambda>a b. \<not> task_lt (os ! b) (os ! a)) out"
proof (induction out arbitrary: q)
  case Nil
  then show ?case by simp
next
  case (Cons a out)
  then have get: "can_get os q a" and rest: "dequeues os (remove1 a q) out"
    by simp_all
  have "set out \<subseteq> set q"
    using dequeues_mset [OF rest] by (metis set_mset_mset set_remove1_subset)
  then have "\<forall>b \<in> set out. \<not> task_lt (os ! b) (os ! a)"
    using get by (auto simp: can_get_def list_all_iff)
  then show ?case using Cons.IH [OF rest] by simp
qed

lemma not_task_lt_priority:
  "\<not> task_lt b a \<Longrightarrow> priority_value (priority b) \<le> priority_value (priority a)"
  by (auto simp: task_lt_def split: if_splits)

lemma not_task_lt_created:
  "\<not> task_lt b a \<Longrightarrow> priority b = priority a \<Longrightarrow> created_at a \<le> created_at b"
  by (auto simp: task_lt_def split: if_splits)

lemma dequeues_fifo:
  assumes "dequeues os q out"
    and "sorted_wrt (\<lambda>a b. created_at (os ! a) < created_at (os ! b)) q"
  shows "filter (\<lambda>a. priority (os ! a) = p) out = filter (\<lambda>a. priority (os ! a) = p) q"
  using assms
proof (induction out arbitrary: q)
  case Nil
  then show ?case by simp
next
  case (Cons a out)
  let ?P = "\<lambda>a. priority (os ! a) = p"
  let ?R = "\<lambda>a b. created_at (os ! a) < created_at (os ! b)"
  from Cons.prems have get: "can_get os q a" and rest: "dequeues os (remove1 a q) out"
    by simp_all
  from get have "a \<in> set q" by (simp add: can_get_def)
  then obtain xs ys where q: "q = xs @ a # ys" and axs: "a \<notin> set xs"
    by (meson split_list_first)
  have rem: "remove1 a q = xs @ ys"
    using q axs by (simp add: remove1_append)
  have "sorted_wrt ?R (xs @ ys)"
    using Cons.prems(2) unfolding q by (auto simp: sorted_wrt_append)
  then have sorted_rem: "sorted_wrt ?R (remove1 a q)"
    by (simp add: rem)
  have ih: "filter ?P out = filter ?P (xs @ ys)"
    using Cons.IH [OF rest sorted_rem] rem by simp
  show ?case
  proof (cases "?P a")
    case False
    then show ?thesis using ih q by simp
  next
    case True
    have "\<not> ?P b" if "b \<in> set xs" for b
    proof
      assume pb: "?P b"
      from that q have "b \<in> set q" by simp
      then have "\<not> task_lt (os ! b) (os ! a)"
        using get by (auto simp: can_get_def list_all_iff)
      then have "created_at (os ! a) \<le> created_at (os ! b)"
        using pb True by (intro not_task_lt_created) simp_all
      moreover have "created_at (os ! b) < created_at (os ! a)"
        using Cons.prems(2) that unfolding q by (auto simp: sorted_wrt_append)
      ultimately show False by simp
    qed
    then have "filter ?P xs = []" by (simp add: filter_empty_conv)
    then show ?thesis using ih q True by simp
  qed
qed


lemma can_get_exists:
  assumes "q \<noteq> []"
  shows "\<exists>a. can_get os q a"
proof -
  let ?pv = "\<lambda>b. priority_value (priority (os ! b))"
  let ?cr = "\<lambda>b. created_at (os ! b)"
  define pmax where "pmax = Max (?pv ` set q)"
  define T where "T = {b \<in> set q. ?pv b = pmax}"
  have "pmax \<in> ?pv ` set q"
    unfolding pmax_def using assms by (intro Max_in) simp_all
  then have "T \<noteq> {}" by (auto simp: T_def)
  moreover have "finite T" by (simp add: T_def)
  ultimately have "Min (?cr ` T) \<in> ?cr ` T" by (intro Min_in) simp_all
  then obtain a where aT: "a \<in> T" and amin: "?cr a = Min (?cr ` T)" by auto
  have aq: "a \<in> set q" and apv: "?pv a = pmax" using aT by (simp_all add: T_def)
  have "\<not> task_lt (os ! b) (os ! a)" if "b \<in> set q" for b
  proof (cases "?pv b = ?pv a")
    case True
    then have "b \<in> T" using that apv by (simp add: T_def)
    then have "?cr a \<le> ?cr b" using amin \<open>finite T\<close> by simp
    then show ?thesis using True by (simp add: task_lt_def)
  next
    case False
    have "?pv b \<le> pmax" unfolding pmax_def using that by (intro Max_ge) simp_all
    then show ?thesis using False apv by (simp add: task_lt_def)
  qed
  then show ?thesis using aq by (auto simp: can_get_def list_all_iff)
qed

lemma dequeues_exists: "\<exists>out. dequeues os q out"
proof (induction "length q" arbitrary: q)
  case 0
  then have "dequeues os q []" by simp
  then show ?case by blast
next
  case (Suc n)
  then have "q \<noteq> []" by auto
  then obtain a where get: "can_get os q a" using can_get_exists by blast
  then have "a \<in> set q" by (simp add: can_get_def)
  then have "n = length (remove1 a q)" using Suc.hyps(2) by (simp add: length_remove1)
  then obtain out where "dequeues os (remove1 a q) out" using Suc.hyps(1) by blast
  then have "dequeues os q (a # out)" using get by simp
  then show ?case by blast
qed

text \<open>
  C5 (as amended). Whatever order the queue hands its entries out in, that order holds
  every entry once, priorities never increase along it, and among entries of equal
  priority creation times never decrease. Where the creation times strictly increase
  along the order of insertion, the entries of each priority come out in the order of
  insertion. (\<open>dequeues_exists\<close>: there always is such an order.)
\<close>

theorem dequeue_order:
  assumes "dequeues os q out"
  shows "mset out = mset q
       \<and> sorted_wrt (\<lambda>a b. priority_value (priority (os ! b))
                              \<le> priority_value (priority (os ! a))) out
       \<and> sorted_wrt (\<lambda>a b. priority (os ! a) = priority (os ! b)
                              \<longrightarrow> created_at (os ! a) \<le> created_at (os ! b)) out
       \<and> (sorted_wrt (\<lambda>a b. created_at (os ! a) < created_at (os ! b)) q \<longrightarrow>
            (\<forall>p. filter (\<lambda>a. priority (os ! a) = p) out
                  = filter (\<lambda>a. priority (os ! a) = p) q))"
proof -
  note srt = dequeues_sorted [OF assms]
  have "sorted_wrt (\<lambda>a b. priority_value (priority (os ! b))
                            \<le> priority_value (priority (os ! a))) out"
    by (rule sorted_wrt_mono_rel [OF _ srt]) (rule not_task_lt_priority)
  moreover have "sorted_wrt (\<lambda>a b. priority (os ! a) = priority (os ! b)
                              \<longrightarrow> created_at (os ! a) \<le> created_at (os ! b)) out"
    by (rule sorted_wrt_mono_rel [OF _ srt]) (auto dest: not_task_lt_created)
  ultimately show ?thesis
    using dequeues_mset [OF assms] dequeues_fifo [OF assms] by blast
qed

theorem dequeue_order_witness:
  "(let s = run example_world example_processor
              [AddTask (clock_at 1000000) [''a.pdf''] None LOW 3,
               AddTask (clock_at 1005000) [''b.pdf''] None URGENT 3,
               AddTask (clock_at 1010000) [''c.pdf''] None NORMAL 3,
               AddTask (clock_at 1015000) [''d.pdf''] None URGENT 3,
               AddTask (clock_at 1020000) [''e.pdf''] None HIGH 3]
    in task_queue s = [0, 1, 2, 3, 4]
       \<and> dequeues (objs s) (task_queue s) [1, 3, 4, 2, 0]
       \<and> \<not> dequeues (objs s) (task_queue s) [3, 1, 4, 2, 0]
       \<and> map (\<lambda>a. priority (objs s ! a)) [1, 3, 4, 2, 0] = [URGENT, URGENT, HIGH, NORMAL, LOW])"
  using dequeue_order [where out = "[1, 3, 4, 2, 0]" and q = "[0, 1, 2, 3, 4]"
      and os = "objs (run example_world example_processor
              [AddTask (clock_at 1000000) [''a.pdf''] None LOW 3,
               AddTask (clock_at 1005000) [''b.pdf''] None URGENT 3,
               AddTask (clock_at 1010000) [''c.pdf''] None NORMAL 3,
               AddTask (clock_at 1015000) [''d.pdf''] None URGENT 3,
               AddTask (clock_at 1020000) [''e.pdf''] None HIGH 3])"]
  by (simp add: run_defs)

lemmas heap_defs = heap_drain_def heap_puts_def heappush_def heappop_def siftup_def

text \<open>The claim as stated fails: four tasks of the same priority created at the same clock
  reading and put on the queue one after the other are handed out first, third, second,
  fourth.\<close>

theorem equal_creation_times_not_fifo:
  "(let s = run example_world example_processor
              [AddTask (clock_at 1000000) [''a.pdf''] None NORMAL 3,
               AddTask (clock_at 1000000) [''b.pdf''] None NORMAL 3,
               AddTask (clock_at 1000000) [''c.pdf''] None NORMAL 3,
               AddTask (clock_at 1000000) [''d.pdf''] None NORMAL 3];
        lt = (\<lambda>a b. task_lt (objs s ! a) (objs s ! b))
    in task_queue s = [0, 1, 2, 3]
       \<and> map (\<lambda>a. priority (objs s ! a)) (task_queue s) = [NORMAL, NORMAL, NORMAL, NORMAL]
       \<and> heap_drain lt (heap_puts lt (task_queue s)) = [0, 2, 1, 3]
       \<and> dequeues (objs s) (task_queue s) [0, 2, 1, 3])"
  by (simp add: run_defs heap_defs)

text \<open>The heap on the five tasks of the witness above.\<close>

lemma heap_example:
  "(let s = run example_world example_processor
              [AddTask (clock_at 1000000) [''a.pdf''] None LOW 3,
               AddTask (clock_at 1005000) [''b.pdf''] None URGENT 3,
               AddTask (clock_at 1010000) [''c.pdf''] None NORMAL 3,
               AddTask (clock_at 1015000) [''d.pdf''] None URGENT 3,
               AddTask (clock_at 1020000) [''e.pdf''] None HIGH 3];
        lt = (\<lambda>a b. task_lt (objs s ! a) (objs s ! b))
    in heap_drain lt (heap_puts lt (task_queue s)) = [1, 3, 4, 2, 0])"
  by (simp add: run_defs heap_defs)

subsection \<open>What holds of the counters\<close>

lemma total_bump_status [simp]: "total_tasks (bump_status k d st) = total_tasks st"
  by (simp add: bump_status_def)

lemma total_dec_processing_floor [simp]: "total_tasks (dec_processing_floor st) = total_tasks st"
  by (simp add: dec_processing_floor_def)

lemma total_mark_cancelled [simp]:
  "total_tasks (statistics (mark_cancelled a s)) = total_tasks (statistics s)"
  by (simp add: mark_cancelled_def upd_task_def)

lemma total_cancel_in_table [simp]:
  "total_tasks (statistics (cancel_in_table tid s)) = total_tasks (statistics s)"
  by (simp add: cancel_in_table_def split: option.splits)

lemma total_cancel_pending [simp]:
  "total_tasks (statistics (cancel_pending fs s)) = total_tasks (statistics s)"
  by (induction fs s rule: cancel_pending.induct) simp_all

lemma total_fail_on_exception [simp]:
  "total_tasks (statistics (fail_on_exception now s a msg)) = total_tasks (statistics s)"
  by (simp add: fail_on_exception_def upd_task_def)

lemma total_cancel_async_future [simp]:
  "total_tasks (statistics (cancel_async_future now fa s)) = total_tasks (statistics s)"
  by (simp add: cancel_async_future_def on_complete_def Let_def split: prod.splits)

lemma total_cancel_pending_async [simp]:
  "total_tasks (statistics (cancel_pending_async now es s)) = total_tasks (statistics s)"
  by (induction now es s rule: cancel_pending_async.induct) simp_all

lemma total_drain_queue [simp]:
  "total_tasks (statistics (drain_queue q s)) = total_tasks (statistics s)"
  by (induction q s rule: drain_queue.induct) simp_all

lemma total_cancel_all [simp]:
  "total_tasks (statistics (cancel_all now s)) = total_tasks (statistics s)"
  by (simp add: cancel_all_def Let_def)

lemma total_cancel_task [simp]:
  "total_tasks (statistics (snd (cancel_task now s tid))) = total_tasks (statistics s)"
  by (simp add: cancel_task_def cancel_task_async_def cancel_task_queued_def Let_def
      split: option.splits)

lemma total_add_task:
  "total_tasks (statistics s) \<le> total_tasks (statistics (snd (add_task w clk s inp outp prio mr)))"
  by (simp add: add_task_def Let_def emit_def)

lemma total_handle_task_result [simp]:
  "total_tasks (statistics (handle_task_result now s a r)) = total_tasks (statistics s)"
  by (simp add: handle_task_result_def Let_def emit_def upd_task_def)

lemma total_monitor_future [simp]:
  "total_tasks (statistics (monitor_future now s a outcome)) = total_tasks (statistics s)"
  by (cases outcome) (simp_all add: monitor_future_def Let_def)

lemma total_on_complete [simp]:
  "total_tasks (statistics (on_complete now s a outcome)) = total_tasks (statistics s)"
  by (cases outcome) (simp_all add: on_complete_def Let_def upd_task_def)

lemma total_worker_loop_iteration:
  "worker_loop_iteration now s a = Some s' \<Longrightarrow>
   total_tasks (statistics s') = total_tasks (statistics s)"
  by (auto simp: worker_loop_iteration_def submit_def upd_task_def Let_def split: if_splits)

lemma total_retry_timer_fires [simp]:
  "total_tasks (statistics (retry_timer_fires s a)) = total_tasks (statistics s)"
  by (simp add: retry_timer_fires_def requeue_after_delay_def upd_task_def split: option.splits)

lemma total_apply_action:
  "total_tasks (statistics s) \<le> total_tasks (statistics (apply_action w s act))"
proof (cases act)
  case (AddTask clk inp outp prio mr)
  then show ?thesis using total_add_task [of s w clk inp outp prio mr] by simp
next
  case (WorkerTakes now a)
  then show ?thesis by (auto simp: total_worker_loop_iteration split: option.splits)
qed (simp_all add: start_def stop_def pause_def resume_def set_future_def Let_def)

text \<open>
  What holds of the counters in every execution: no step of the processor or of its
  threads decreases \<open>total_tasks\<close>, and the success rate is 0 when \<open>total_tasks\<close> is 0.
\<close>

theorem total_tasks_never_decreases:
  "total_tasks (statistics s) \<le> total_tasks (statistics (run w s acts))
   \<and> success_rate (st\<lparr>total_tasks := 0\<rparr>) = 0"
proof -
  have "total_tasks (statistics s) \<le> total_tasks (statistics (run w s acts))"
  proof (induction acts arbitrary: s)
    case Nil
    then show ?case by (simp add: run_def)
  next
    case (Cons act acts)
    have "total_tasks (statistics s) \<le> total_tasks (statistics (apply_action w s act))"
      by (rule total_apply_action)
    also have "\<dots> \<le> total_tasks (statistics (run w (apply_action w s act) acts))"
      by (rule Cons.IH)
    finally show ?case by (simp add: run_def)
  qed
  then show ?thesis by (simp add: success_rate_def)
qed

theorem total_tasks_never_decreases_witness:
  "total_tasks (statistics (run example_world example_processor
      [AddTask (clock_at 1000000) [''a.pdf''] None NORMAL 3, CancelAll (\<lambda>t. 2)])) = 1
   \<and> success_rate (statistics example_processor) = 0"
  using total_tasks_never_decreases [where w = example_world and s = example_processor
      and acts = "[AddTask (clock_at 1000000) [''a.pdf''] None NORMAL 3, CancelAll (\<lambda>t. 2)]"
      and st = "statistics example_processor"]
  by (simp add: run_defs success_rate_def)

end
